theory Spec2Isabelle
  imports Complex_Main "HOL-Library.Sublist"
begin

section \<open>Text primitives\<close>

text \<open>
  The extraction engine (\<^verbatim>\<open>src/services/accountant.py\<close>, \<^verbatim>\<open>src/services/scanner.py\<close>)
  works on Python strings. A string is modelled as a \<^typ>\<open>string\<close>, one \<^typ>\<open>char\<close> per
  code point. The model follows Python on ASCII text, in which every keyword, pattern and
  JSON delimiter of the source is written; a character outside ASCII counts as a symbol
  that is neither a letter, a digit nor white space. Python integers are unbounded and
  are modelled by \<^typ>\<open>int\<close>; the interpreter's limit on the length of a decimal
  conversion is not part of the model.
\<close>

definition lower_char :: "char \<Rightarrow> char" where
  "lower_char c =
     (case map_of (zip ''ABCDEFGHIJKLMNOPQRSTUVWXYZ'' ''abcdefghijklmnopqrstuvwxyz'') c of
        Some d \<Rightarrow> d
      | None \<Rightarrow> c)"

text \<open>\<^verbatim>\<open>str.lower()\<close>.\<close>

definition lower :: "string \<Rightarrow> string" where
  "lower s = map lower_char s"

text \<open>The classes \<^verbatim>\<open>\d\<close>, \<^verbatim>\<open>\s\<close> and \<^verbatim>\<open>\w\<close> of Python's \<^verbatim>\<open>re\<close> on ASCII text.\<close>

definition is_digit :: "char \<Rightarrow> bool" where
  "is_digit c = (c \<in> set ''0123456789'')"

definition is_space :: "char \<Rightarrow> bool" where
  "is_space c = (c \<in> set [CHR '' '', CHR 0x09, CHR 0x0A, CHR 0x0B, CHR 0x0C, CHR 0x0D,
                            CHR 0x1C, CHR 0x1D, CHR 0x1E, CHR 0x1F])"

definition is_word :: "char \<Rightarrow> bool" where
  "is_word c =
     (c \<in> set ''abcdefghijklmnopqrstuvwxyzABCDEFGHIJKLMNOPQRSTUVWXYZ0123456789_'')"

text \<open>\<^verbatim>\<open>str.strip()\<close>.\<close>

definition strip :: "string \<Rightarrow> string" where
  "strip s = rev (dropWhile is_space (rev (dropWhile is_space s)))"

text \<open>\<^verbatim>\<open>s.startswith(p)\<close> and the substring test \<^verbatim>\<open>w in s\<close>.\<close>

fun startswith :: "string \<Rightarrow> string \<Rightarrow> bool" where
  "startswith s [] = True"
| "startswith [] (p # ps) = False"
| "startswith (c # cs) (p # ps) = (c = p \<and> startswith cs ps)"

fun contains :: "string \<Rightarrow> string \<Rightarrow> bool" where
  "contains [] w = (w = [])"
| "contains (c # cs) w = (startswith (c # cs) w \<or> contains cs w)"

section \<open>Integers and their decimal text\<close>

definition digit_val :: "char \<Rightarrow> int" where
  "digit_val c =
     (case map_of (zip ''0123456789'' [0, 1, 2, 3, 4, 5, 6, 7, 8, 9]) c of
        Some d \<Rightarrow> d
      | None \<Rightarrow> 0)"

text \<open>\<^verbatim>\<open>int(ds)\<close> for a string of decimal digits.\<close>

definition digits_value :: "string \<Rightarrow> int" where
  "digits_value ds = foldl (\<lambda>acc c. 10 * acc + digit_val c) 0 ds"

definition digit_char :: "int \<Rightarrow> char" where
  "digit_char d =
     (case map_of (zip [0, 1, 2, 3, 4, 5, 6, 7, 8, 9] ''0123456789'') d of
        Some c \<Rightarrow> c
      | None \<Rightarrow> CHR ''0'')"

function str_digits :: "int \<Rightarrow> string" where
  "str_digits n =
     (if n < 10 then [digit_char n] else str_digits (n div 10) @ [digit_char (n mod 10)])"
  by pat_completeness auto
termination
  by (relation "measure nat") auto

declare str_digits.simps [simp del]

text \<open>\<^verbatim>\<open>str(i)\<close> for an integer.\<close>

definition str_int :: "int \<Rightarrow> string" where
  "str_int i = (if i < 0 then CHR ''-'' # str_digits (- i) else str_digits i)"

section \<open>Floats\<close>

text \<open>
  A Python float is an IEEE 754 double. A finite double is modelled by the rational
  number it is; \<open>dbl x\<close> is the double nearest to the rational \<open>x\<close> (ties to even,
  gradual underflow), which is what a float literal, \<^verbatim>\<open>float(text)\<close> and every float
  operation of the source yield from the exact result \<open>x\<close>.
\<close>

function bitlen :: "int \<Rightarrow> int" where
  "bitlen n = (if n \<le> 0 then 0 else 1 + bitlen (n div 2))"
  by pat_completeness auto
termination
  by (relation "measure nat") auto

declare bitlen.simps [simp del]

definition pow2 :: "int \<Rightarrow> rat" where
  "pow2 e = (if 0 \<le> e then 2 ^ nat e else 1 / 2 ^ nat (- e))"

text \<open>The integer part of the binary logarithm of a positive rational.\<close>

definition ilog2 :: "rat \<Rightarrow> int" where
  "ilog2 x = (case quotient_of x of (p, q) \<Rightarrow>
     (let e0 = bitlen p - bitlen q
      in if pow2 e0 \<le> x then e0 else e0 - 1))"

definition round_half_even :: "rat \<Rightarrow> int" where
  "round_half_even x =
     (let f = \<lfloor>x\<rfloor>; d = x - of_int f
      in if d < 1 / 2 then f else if 1 / 2 < d then f + 1 else if even f then f else f + 1)"

text \<open>
  The double nearest to a positive rational \<open>a\<close> is \<open>dbl_mantissa a * 2 ^ dbl_exponent a\<close>,
  with a mantissa of at most 53 bits.
\<close>

definition dbl_exponent :: "rat \<Rightarrow> int" where
  "dbl_exponent a = max (ilog2 a) (- 1022) - 52"

definition dbl_mantissa :: "rat \<Rightarrow> int" where
  "dbl_mantissa a = round_half_even (a / pow2 (dbl_exponent a))"

definition dbl :: "rat \<Rightarrow> rat" where
  "dbl x = (if x = 0 then 0
            else sgn x * of_int (dbl_mantissa \<bar>x\<bar>) * pow2 (dbl_exponent \<bar>x\<bar>))"

datatype pyfloat = Finite rat | PosInf | NegInf | NaN

text \<open>A rational beyond the largest double rounds to an infinity.\<close>

definition overflows :: "rat \<Rightarrow> bool" where
  "overflows x =
     (x \<noteq> 0 \<and> (972 \<le> dbl_exponent \<bar>x\<bar>
        \<or> (dbl_exponent \<bar>x\<bar> = 971 \<and> dbl_mantissa \<bar>x\<bar> = 9007199254740992)))"

definition float_of_rat :: "rat \<Rightarrow> pyfloat" where
  "float_of_rat x =
     (if overflows x then (if 0 < x then PosInf else NegInf) else Finite (dbl x))"

section \<open>The closed label sets (\<^verbatim>\<open>src/models/expense.py\<close>)\<close>

datatype EmotionLabel = MARAH | SEDIH | SENANG | LAPAR | STRESS | NETRAL

datatype ExpenseCategory =
  MAKANAN_MINUMAN | TRANSPORT | FASHION | HIBURAN | BELANJA | TAGIHAN | LAINNYA

section \<open>Emotion detector (\<^verbatim>\<open>detect_emotion_from_text\<close>)\<close>

definition anger_words :: "string list" where
  "anger_words = [''anjing'', ''anjir'', ''bangsat'', ''babi'', ''kesel'', ''kesal'',
     ''emosi'', ''bete'', ''bt'', ''marah'', ''goblok'', ''tolol'', ''kampret'',
     ''sialan'', ''sial'', ''nyebelin'', ''sebel'', ''jengkel'']"

definition sad_words :: "string list" where
  "sad_words = [''sedih'', ''nyesel'', ''menyesal'', ''kecewa'', ''galau'', ''nangis'',
     ''sakit hati'', ''patah hati'', ''gagal'', ''rugi'', ''boros'']"

definition happy_words :: "string list" where
  "happy_words = [''seneng'', ''senang'', ''happy'', ''yey'', ''yeay'', ''hore'', ''asik'',
     ''mantap'', ''mantul'', ''keren'', ''seru'', ''bagus'', ''puas'', ''worth'']"

definition stress_words :: "string list" where
  "stress_words = [''stress'', ''stres'', ''capek'', ''cape'', ''lelah'', ''pusing'',
     ''mumet'', ''ribet'', ''deadline'', ''lembur'', ''overtime'', ''sibuk'']"

definition hunger_words :: "string list" where
  "hunger_words = [''lapar'', ''laper'', ''hungry'', ''pengen makan'', ''kelaparan'']"

text \<open>
  One keyword loop \<^verbatim>\<open>for word in words: if word in message_lower: return ...\<close>: does the
  loop reach its \<^verbatim>\<open>return\<close>?
\<close>

fun word_loop_hits :: "string list \<Rightarrow> string \<Rightarrow> bool" where
  "word_loop_hits [] message_lower = False"
| "word_loop_hits (word # words) message_lower =
     (if contains message_lower word then True else word_loop_hits words message_lower)"

text \<open>The five loops in the order of the source: anger, sadness, stress, happiness, hunger.\<close>

definition detect_emotion_from_text :: "string \<Rightarrow> EmotionLabel \<times> rat" where
  "detect_emotion_from_text message =
     (let message_lower = lower message in
      if word_loop_hits anger_words message_lower then (MARAH, - dbl 0.6)
      else if word_loop_hits sad_words message_lower then (SEDIH, - dbl 0.5)
      else if word_loop_hits stress_words message_lower then (STRESS, - dbl 0.4)
      else if word_loop_hits happy_words message_lower then (SENANG, dbl 0.7)
      else if word_loop_hits hunger_words message_lower then (LAPAR, dbl 0.1)
      else (NETRAL, dbl 0.0))"

section \<open>Regular expressions\<close>

text \<open>
  The patterns of the source use literals, character classes, greedy repetition of a
  character class, concatenation, alternation, an optional group, capturing groups and
  the anchors \<^verbatim>\<open>^\<close>, \<^verbatim>\<open>$\<close> and \<^verbatim>\<open>\b\<close>. \<open>Rep p n\<close> is the greedy repetition of the class
  \<open>p\<close> at least \<open>n\<close> times: \<^verbatim>\<open>\d+\<close> is \<open>Rep is_digit 1\<close>, \<^verbatim>\<open>\s*\<close> is \<open>Rep is_space 0\<close>,
  \<^verbatim>\<open>\d{4,}\<close> is \<open>Rep is_digit 4\<close>.
\<close>

datatype regex =
    Lit string
  | Cls "char \<Rightarrow> bool"
  | Rep "char \<Rightarrow> bool" nat
  | Cat regex regex
  | Alt regex regex
  | Opt regex
  | Grp nat regex
  | Bol
  | Eol
  | Wb

text \<open>
  A position in the subject: the text to its left (nearest character first), the text
  to its right, and the groups captured so far.
\<close>

type_synonym mstate = "string \<times> string \<times> (nat \<times> string) list"

definition at_boundary :: "string \<Rightarrow> string \<Rightarrow> bool" where
  "at_boundary bef rest =
     ((case bef of [] \<Rightarrow> False | p # _ \<Rightarrow> is_word p)
        \<noteq> (case rest of [] \<Rightarrow> False | n # _ \<Rightarrow> is_word n))"

text \<open>
  Python's \<^verbatim>\<open>re\<close> is a backtracking matcher. \<open>rmatch r st\<close> lists the positions at which
  a match of \<open>r\<close> begun at \<open>st\<close> can end, in the order in which backtracking tries them:
  the longer repetition first, the left alternative first, the optional part present
  first.
\<close>

fun rmatch :: "regex \<Rightarrow> mstate \<Rightarrow> mstate list" where
  "rmatch (Lit w) (bef, rest, caps) =
     (if startswith rest w then [(rev w @ bef, drop (length w) rest, caps)] else [])"
| "rmatch (Cls p) (bef, rest, caps) =
     (case rest of [] \<Rightarrow> [] | c # cs \<Rightarrow> if p c then [(c # bef, cs, caps)] else [])"
| "rmatch (Rep p n) (bef, rest, caps) =
     map (\<lambda>j. (rev (take j rest) @ bef, drop j rest, caps))
       (rev [n ..< Suc (length (takeWhile p rest))])"
| "rmatch (Cat r1 r2) st = concat (map (rmatch r2) (rmatch r1 st))"
| "rmatch (Alt r1 r2) st = rmatch r1 st @ rmatch r2 st"
| "rmatch (Opt r) st = rmatch r st @ [st]"
| "rmatch (Grp i r) (bef, rest, caps) =
     map (\<lambda>(bef', rest', caps').
            (bef', rest', (i, rev (take (length bef' - length bef) bef')) # caps'))
       (rmatch r (bef, rest, caps))"
| "rmatch Bol (bef, rest, caps) = (if bef = [] then [(bef, rest, caps)] else [])"
| "rmatch Eol (bef, rest, caps) =
     (if rest = [] \<or> rest = [CHR 0x0A] then [(bef, rest, caps)] else [])"
| "rmatch Wb (bef, rest, caps) = (if at_boundary bef rest then [(bef, rest, caps)] else [])"

fun seq :: "regex list \<Rightarrow> regex" where
  "seq [] = Lit []"
| "seq [r] = r"
| "seq (r # rs) = Cat r (seq rs)"

fun alts :: "regex list \<Rightarrow> regex" where
  "alts [] = Cls (\<lambda>c. False)"
| "alts [r] = r"
| "alts (r # rs) = Alt r (alts rs)"

text \<open>
  \<^verbatim>\<open>re.search\<close>: the first match at the leftmost position that has one. The result is the
  text left of the match and the position at its end.
\<close>

fun search_from :: "regex \<Rightarrow> string \<Rightarrow> string \<Rightarrow> (string \<times> mstate) option" where
  "search_from r bef [] =
     (case rmatch r (bef, [], []) of [] \<Rightarrow> None | m # _ \<Rightarrow> Some (bef, m))"
| "search_from r bef (c # cs) =
     (case rmatch r (bef, c # cs, []) of
        [] \<Rightarrow> search_from r (c # bef) cs
      | m # _ \<Rightarrow> Some (bef, m))"

definition re_search :: "regex \<Rightarrow> string \<Rightarrow> (string \<times> mstate) option" where
  "re_search r s = search_from r [] s"

text \<open>\<^verbatim>\<open>m.group(i)\<close> and \<^verbatim>\<open>m.group()\<close>.\<close>

definition group :: "(nat \<times> string) list \<Rightarrow> nat \<Rightarrow> string" where
  "group caps i = (case map_of caps i of Some s \<Rightarrow> s | None \<Rightarrow> [])"

definition matched_text :: "string \<times> mstate \<Rightarrow> string" where
  "matched_text m = (case m of (bef, bef', rest', caps) \<Rightarrow>
     rev (take (length bef' - length bef) bef'))"

text \<open>
  \<^verbatim>\<open>re.sub\<close> with a function as replacement: the matches are found from left to right
  and do not overlap. After an empty match the next match at the same position must be
  non-empty (\<open>must_advance\<close>), as in Python 3.7 and later.
\<close>

definition first_match :: "regex \<Rightarrow> bool \<Rightarrow> string \<Rightarrow> string \<Rightarrow> mstate option" where
  "first_match r must_advance bef rest =
     (case filter (\<lambda>(bef', rest', caps). \<not> must_advance \<or> length rest' < length rest)
             (rmatch r (bef, rest, [])) of
        [] \<Rightarrow> None
      | m # _ \<Rightarrow> Some m)"

function re_sub_from ::
  "regex \<Rightarrow> ((nat \<times> string) list \<Rightarrow> string) \<Rightarrow> bool \<Rightarrow> string \<Rightarrow> string \<Rightarrow> string" where
  "re_sub_from r repl must_advance bef rest =
     (case first_match r must_advance bef rest of
        None \<Rightarrow> (case rest of [] \<Rightarrow> [] | c # cs \<Rightarrow> c # re_sub_from r repl False (c # bef) cs)
      | Some (bef', rest', caps) \<Rightarrow>
          if length rest' < length rest then repl caps @ re_sub_from r repl False bef' rest'
          else if must_advance then []
          else repl caps @ re_sub_from r repl True bef rest)"
  by pat_completeness auto
termination
proof (relation "measure (\<lambda>(r, repl, must_advance, bef, rest).
                   2 * length rest + (if must_advance then 0 else 1))")
qed simp_all

declare re_sub_from.simps [simp del]

definition re_sub :: "regex \<Rightarrow> ((nat \<times> string) list \<Rightarrow> string) \<Rightarrow> string \<Rightarrow> string" where
  "re_sub r repl s = re_sub_from r repl False [] s"

definition digits1 :: regex where
  "digits1 = Rep is_digit 1"

definition spaces0 :: regex where
  "spaces0 = Rep is_space 0"

section \<open>Expense-likelihood gate (\<^verbatim>\<open>has_expense_pattern\<close>, \<^verbatim>\<open>has_money_indicator\<close>)\<close>

definition money_patterns :: "regex list" where
  "money_patterns =
    [seq [digits1, spaces0, Cls (\<lambda>c. c \<in> set ''kr'')],
     seq [digits1, spaces0, Lit ''rb''],
     seq [digits1, spaces0, Lit ''ribu''],
     seq [digits1, spaces0, Lit ''jt''],
     seq [digits1, spaces0, Lit ''juta''],
     Rep is_digit 4,
     Grp 1 (alts [Lit ''beli'', Lit ''bayar'', Lit ''abis'', Lit ''habis'', Lit ''keluar'',
                  Lit ''spend'']),
     Grp 1 (alts [Lit ''harga'', Lit ''biaya'', Lit ''ongkir'', Lit ''ongkos''])]"

text \<open>The loop \<^verbatim>\<open>for pattern in patterns: if re.search(pattern, s): return True\<close>.\<close>

fun pattern_loop_hits :: "regex list \<Rightarrow> string \<Rightarrow> bool" where
  "pattern_loop_hits [] s = False"
| "pattern_loop_hits (pattern # patterns) s =
     (case re_search pattern s of
        Some m \<Rightarrow> True
      | None \<Rightarrow> pattern_loop_hits patterns s)"

definition has_money_indicator :: "string \<Rightarrow> bool" where
  "has_money_indicator message = pattern_loop_hits money_patterns (lower message)"

definition casual_patterns :: "regex list" where
  "casual_patterns =
    [seq [Bol, Grp 1 (alts [Lit ''hai'', Lit ''halo'', Lit ''hi'', Lit ''hey'', Lit ''yo'']), Wb],
     seq [Bol, Grp 1 (alts [Lit ''oke'', Lit ''ok'', Lit ''siap'', Lit ''mantap'', Lit ''nice'',
                            Lit ''wkwk'', Lit ''haha'', Lit ''lol'', Lit ''wkwkwk'']), Wb],
     seq [Bol, Grp 1 (alts [Lit ''makasih'', Lit ''thanks'', Lit ''thx'', Lit ''terima kasih''])],
     seq [Bol, Grp 1 (alts [Lit ''iya'', Lit ''yoi'', Lit ''yup'', Lit ''yes'', Lit ''ya'',
                            Lit ''bener'', Lit ''betul''])],
     seq [Bol, Grp 1 (alts [Lit ''ga'', Lit ''gak'', Lit ''nggak'', Lit ''tidak'', Lit ''no'',
                            Lit ''nope''])],
     seq [Bol, Grp 1 (alts [Lit ''kenyang'', Lit ''puas'', Lit ''enak'', Lit ''mantul'',
                            Lit ''mantep''])],
     seq [Bol, Grp 1 (alts [Lit ''mahal'', Lit ''murah'']), spaces0,
          Opt (Grp 2 (alts [Lit ''bgt'', Lit ''banget'', Lit ''amat''])), Eol],
     alts [seq [Bol, Lit ''gimana''], Lit ''bagaimana'', Lit ''apa kabar''],
     seq [Bol, Grp 1 (alts [Lit ''sedih'', Lit ''seneng'', Lit ''senang'', Lit ''kesel'',
                            Lit ''marah'']),
          spaces0, Opt (Grp 2 (alts [Lit ''bgt'', Lit ''banget''])), Eol],
     Lit ''mana ada'']"

text \<open>
  The loop over the casual patterns returns at the first pattern that matches:
  \<open>Some b\<close> is \<^verbatim>\<open>return b\<close>, \<open>None\<close> is falling out of the loop.
\<close>

fun casual_loop :: "regex list \<Rightarrow> string \<Rightarrow> bool option" where
  "casual_loop [] message_lower = None"
| "casual_loop (pattern # patterns) message_lower =
     (case re_search pattern message_lower of
        Some m \<Rightarrow> (if has_money_indicator message_lower then Some True else Some False)
      | None \<Rightarrow> casual_loop patterns message_lower)"

definition has_expense_pattern :: "string \<Rightarrow> bool" where
  "has_expense_pattern message =
     (let message_lower = strip (lower message) in
      if length message_lower < 5 then False
      else case casual_loop casual_patterns message_lower of
             Some b \<Rightarrow> b
           | None \<Rightarrow> has_money_indicator message_lower)"

section \<open>Exceptions\<close>

text \<open>
  The Python exceptions that the modelled code can raise. A function that can raise
  returns \<open>exn + 'a\<close>, with \<open>Inl\<close> for the exception.
\<close>

datatype exn =
  ValueError | TypeError | AttributeError | OverflowError | ValidationError | RemoteError

definition and_then :: "exn + 'a \<Rightarrow> ('a \<Rightarrow> exn + 'b) \<Rightarrow> exn + 'b" where
  "and_then x f = (case x of Inl e \<Rightarrow> Inl e | Inr v \<Rightarrow> f v)"

text \<open>\<^verbatim>\<open>int(f)\<close> for a float truncates towards zero and raises on a non-finite value.\<close>

definition truncate :: "rat \<Rightarrow> int" where
  "truncate v = (if 0 \<le> v then \<lfloor>v\<rfloor> else \<lceil>v\<rceil>)"

definition int_of_float :: "pyfloat \<Rightarrow> exn + int" where
  "int_of_float f =
     (case f of
        Finite v \<Rightarrow> Inr (truncate v)
      | PosInf \<Rightarrow> Inl OverflowError
      | NegInf \<Rightarrow> Inl OverflowError
      | NaN \<Rightarrow> Inl ValueError)"

text \<open>The product of a float with a finite double.\<close>

definition float_times :: "pyfloat \<Rightarrow> rat \<Rightarrow> pyfloat" where
  "float_times f c =
     (case f of
        Finite v \<Rightarrow> float_of_rat (v * c)
      | PosInf \<Rightarrow> (if 0 < c then PosInf else if c < 0 then NegInf else NaN)
      | NegInf \<Rightarrow> (if 0 < c then NegInf else if c < 0 then PosInf else NaN)
      | NaN \<Rightarrow> NaN)"

section \<open>Amount normalizer (\<^verbatim>\<open>normalize_amount_string\<close>)\<close>

text \<open>
  The inner function \<^verbatim>\<open>replace_million_decimal\<close>. Its float arithmetic is
  \<^verbatim>\<open>float("0." + decimal_str) * 1000000\<close>, truncated by \<^verbatim>\<open>int\<close>: both the conversion and
  the product round to the nearest double.
\<close>

definition replace_million_decimal :: "(nat \<times> string) list \<Rightarrow> string" where
  "replace_million_decimal m =
     (let whole = digits_value (group m 1);
          decimal_str = group m 2;
          multiplier = 1000000;
          val = whole * multiplier;
          val = (if decimal_str \<noteq> []
                 then (let decimal_val =
                             dbl (of_int (digits_value decimal_str) / 10 ^ length decimal_str)
                       in val + truncate (dbl (decimal_val * of_int multiplier)))
                 else val)
      in str_int val)"

text \<open>The two lambdas of the pattern table.\<close>

definition times_thousand :: "(nat \<times> string) list \<Rightarrow> string" where
  "times_thousand m = str_int (digits_value (group m 1) * 1000)"

definition times_million :: "(nat \<times> string) list \<Rightarrow> string" where
  "times_million m = str_int (digits_value (group m 1) * 1000000)"

definition decimal_sep :: "char \<Rightarrow> bool" where
  "decimal_sep c = (c \<in> set ''.,'')"

text \<open>
  The pattern \<^verbatim>\<open>(\d+)\s*SUFFIX\b\<close> and the pattern \<^verbatim>\<open>(\d+)[.,](\d+)\s*TAIL\b\<close>, which both
  the normalizer and the fallback extractor use.
\<close>

definition amount_with_suffix :: "string \<Rightarrow> regex" where
  "amount_with_suffix sfx = seq [Grp 1 digits1, spaces0, Lit sfx, Wb]"

definition decimal_amount :: "regex \<Rightarrow> regex" where
  "decimal_amount tail = seq [Grp 1 digits1, Cls decimal_sep, Grp 2 digits1, spaces0, tail, Wb]"

definition normalize_patterns :: "(regex \<times> ((nat \<times> string) list \<Rightarrow> string)) list" where
  "normalize_patterns =
    [(amount_with_suffix ''k'', times_thousand),
     (amount_with_suffix ''rb'', times_thousand),
     (amount_with_suffix ''ribu'', times_thousand),
     (decimal_amount (Lit ''jt''), replace_million_decimal),
     (decimal_amount (Lit ''juta''), replace_million_decimal),
     (amount_with_suffix ''jt'', times_million),
     (amount_with_suffix ''juta'', times_million)]"

text \<open>
  The text is lowercased first, so the flag \<^verbatim>\<open>re.IGNORECASE\<close> of the source changes no
  match and is left out. The loop applies the substitutions one after the other, each
  to the result of the one before.
\<close>

fun sub_loop :: "(regex \<times> ((nat \<times> string) list \<Rightarrow> string)) list \<Rightarrow> string \<Rightarrow> string" where
  "sub_loop [] result = result"
| "sub_loop ((pattern, replacement) # patterns) result =
     sub_loop patterns (re_sub pattern replacement result)"

definition normalize_amount_string :: "string \<Rightarrow> string" where
  "normalize_amount_string text = (let text = lower text in sub_loop normalize_patterns text)"

section \<open>Fallback amount extractor (\<^verbatim>\<open>extract_amount_fallback\<close>)\<close>

definition multipliers :: "(string \<times> int) list" where
  "multipliers =
     [(''k'', 1000), (''rb'', 1000), (''ribu'', 1000), (''jt'', 1000000), (''juta'', 1000000)]"

text \<open>The loop over the suffixes: \<open>Some n\<close> is \<^verbatim>\<open>return n\<close>.\<close>

fun suffix_loop :: "(string \<times> int) list \<Rightarrow> string \<Rightarrow> int option" where
  "suffix_loop [] text = None"
| "suffix_loop ((sfx, multiplier) # rest) text =
     (case re_search (amount_with_suffix sfx) text of
        Some (bef, bef', rest', caps) \<Rightarrow> Some (digits_value (group caps 1) * multiplier)
      | None \<Rightarrow> suffix_loop rest text)"

definition extract_amount_fallback :: "string \<Rightarrow> exn + int option" where
  "extract_amount_fallback text =
     (let text = lower text in
      case suffix_loop multipliers text of
        Some n \<Rightarrow> Inr (Some n)
      | None \<Rightarrow>
          (case re_search (decimal_amount (Grp 3 (alts [Lit ''jt'', Lit ''juta'']))) text of
             Some (bef, bef', rest', caps) \<Rightarrow>
               (let val = float_of_rat (of_int (digits_value (group caps 1))
                            + of_int (digits_value (group caps 2)) / 10 ^ length (group caps 2))
                in and_then (int_of_float (float_times val 1000000)) (\<lambda>n. Inr (Some n)))
           | None \<Rightarrow>
               (case re_search (Grp 1 (Rep is_digit 4)) text of
                  Some (bef, bef', rest', caps) \<Rightarrow> Inr (Some (digits_value (group caps 1)))
                | None \<Rightarrow> Inr None)))"

section \<open>JSON values and \<^verbatim>\<open>json.loads\<close>\<close>

text \<open>
  What \<^verbatim>\<open>json.loads\<close> returns: \<^verbatim>\<open>None\<close>, a bool, an int, a float, a str, a list or a dict.
  A dict is an association list in insertion order with distinct keys.
\<close>

datatype json =
    JNull
  | JBool bool
  | JInt int
  | JFloat pyfloat
  | JStr string
  | JArr "json list"
  | JObj "(string \<times> json) list"

text \<open>\<^verbatim>\<open>d[k] = v\<close> and \<^verbatim>\<open>d.get(k, default)\<close>.\<close>

definition dict_set :: "(string \<times> json) list \<Rightarrow> string \<Rightarrow> json \<Rightarrow> (string \<times> json) list" where
  "dict_set kvs k v =
     (if k \<in> set (map fst kvs)
      then map (\<lambda>(k', v'). if k' = k then (k', v) else (k', v')) kvs
      else kvs @ [(k, v)])"

definition dict_get :: "(string \<times> json) list \<Rightarrow> string \<Rightarrow> json \<Rightarrow> json" where
  "dict_get kvs k dflt = (case map_of kvs k of Some v \<Rightarrow> v | None \<Rightarrow> dflt)"

text \<open>
  The decoder is modelled in two passes over the text: a scanner that cuts it into
  tokens, and a stack machine that builds the value. It accepts the language of
  Python's decoder: JSON with the extra literals \<^verbatim>\<open>NaN\<close>, \<^verbatim>\<open>Infinity\<close> and \<^verbatim>\<open>-Infinity\<close>,
  no control character inside a string, nothing but white space after the value.
  \<open>None\<close> is \<^verbatim>\<open>JSONDecodeError\<close>. A \<^verbatim>\<open>\u\<close> escape yields the character of that code when
  it is below 256 and of its low byte otherwise; the decoder's limit on the nesting depth
  is not modelled.
\<close>

datatype token = TLBracket | TRBracket | TLBrace | TRBrace | TComma | TColon | TAtom json

definition is_json_ws :: "char \<Rightarrow> bool" where
  "is_json_ws c = (c \<in> set [CHR '' '', CHR 0x09, CHR 0x0A, CHR 0x0D])"

definition is_control :: "char \<Rightarrow> bool" where
  "is_control c = ((of_char c :: int) < 32)"

definition hex_val :: "char \<Rightarrow> int option" where
  "hex_val c = map_of (zip ''0123456789abcdefABCDEF''
     [0, 1, 2, 3, 4, 5, 6, 7, 8, 9, 10, 11, 12, 13, 14, 15, 10, 11, 12, 13, 14, 15]) c"

definition hex4 :: "char \<Rightarrow> char \<Rightarrow> char \<Rightarrow> char \<Rightarrow> char option" where
  "hex4 a b c d =
     (case (hex_val a, hex_val b, hex_val c, hex_val d) of
        (Some w, Some x, Some y, Some z) \<Rightarrow> Some (char_of (16 * y + z))
      | _ \<Rightarrow> None)"

definition escapes :: "(char \<times> char) list" where
  "escapes = [(CHR 0x22, CHR 0x22), (CHR 0x5C, CHR 0x5C), (CHR ''/'', CHR ''/''),
              (CHR ''b'', CHR 0x08), (CHR ''f'', CHR 0x0C), (CHR ''n'', CHR 0x0A),
              (CHR ''r'', CHR 0x0D), (CHR ''t'', CHR 0x09)]"

text \<open>The body of a string, after its opening quote: the decoded text and what follows.\<close>

fun scan_string :: "string \<Rightarrow> string \<Rightarrow> (string \<times> string) option" where
  "scan_string acc [] = None"
| "scan_string acc (c # cs) =
     (if c = CHR 0x22 then Some (rev acc, cs)
      else if c = CHR 0x5C then
        (case cs of
           [] \<Rightarrow> None
         | e # cs' \<Rightarrow>
             if e = CHR ''u'' then
               (case cs' of
                  h1 # h2 # h3 # h4 # cs'' \<Rightarrow>
                    (case hex4 h1 h2 h3 h4 of
                       Some ch \<Rightarrow> scan_string (ch # acc) cs''
                     | None \<Rightarrow> None)
                | _ \<Rightarrow> None)
             else (case map_of escapes e of
                     Some ch \<Rightarrow> scan_string (ch # acc) cs'
                   | None \<Rightarrow> None))
      else if is_control c then None
      else scan_string (c # acc) cs)"

text \<open>The value of the decimal \<open>ip.fp\<close> times ten to the power \<open>ex\<close>.\<close>

definition decimal_value :: "string \<Rightarrow> string \<Rightarrow> int \<Rightarrow> rat" where
  "decimal_value ip fp ex =
     (of_int (digits_value ip) + of_int (digits_value fp) / 10 ^ length fp)
       * (if 0 \<le> ex then 10 ^ nat ex else 1 / 10 ^ nat (- ex))"

definition signed :: "bool \<Rightarrow> rat \<Rightarrow> rat" where
  "signed neg x = (if neg then - x else x)"

text \<open>An optional sign.\<close>

definition split_sign :: "string \<Rightarrow> bool \<times> string" where
  "split_sign s =
     (case s of
        [] \<Rightarrow> (False, s)
      | c # r \<Rightarrow> if c = CHR ''-'' then (True, r) else if c = CHR ''+'' then (False, r)
                 else (False, s))"

text \<open>
  A number, by the decoder's pattern \<^verbatim>\<open>(-?(?:0|[1-9]\d*))(\.\d+)?([eE][-+]?\d+)?\<close>: an int
  when it has neither fraction nor exponent, a float otherwise.
\<close>

definition scan_fraction :: "string \<Rightarrow> string \<times> string" where
  "scan_fraction s =
     (case s of
        [] \<Rightarrow> ([], s)
      | c # r \<Rightarrow>
          if c = CHR ''.'' \<and> takeWhile is_digit r \<noteq> []
          then (takeWhile is_digit r, dropWhile is_digit r)
          else ([], s))"

definition scan_exponent :: "string \<Rightarrow> int option \<times> string" where
  "scan_exponent s =
     (case s of
        [] \<Rightarrow> (None, s)
      | c # r \<Rightarrow>
          if c \<in> set ''eE'' then
            (case split_sign r of (neg, r') \<Rightarrow>
               if takeWhile is_digit r' \<noteq> []
               then (Some ((if neg then - 1 else 1) * digits_value (takeWhile is_digit r')),
                     dropWhile is_digit r')
               else (None, s))
          else (None, s))"

definition scan_number :: "string \<Rightarrow> (json \<times> string) option" where
  "scan_number s =
     (let neg = (case s of [] \<Rightarrow> False | c # _ \<Rightarrow> c = CHR ''-'');
          s1 = (if neg then tl s else s);
          ip = (case s1 of [] \<Rightarrow> [] | c # _ \<Rightarrow> if c = CHR ''0'' then [c] else takeWhile is_digit s1)
      in if ip = [] then None
         else (case scan_fraction (drop (length ip) s1) of (fp, s3) \<Rightarrow>
               (case scan_exponent s3 of (ex, s4) \<Rightarrow>
                  if fp = [] \<and> ex = None
                  then Some (JInt ((if neg then - 1 else 1) * digits_value ip), s4)
                  else Some (JFloat (float_of_rat (signed neg
                               (decimal_value ip fp (case ex of None \<Rightarrow> 0 | Some e \<Rightarrow> e)))),
                             s4))))"

definition literals :: "(string \<times> json) list" where
  "literals = [(''null'', JNull), (''true'', JBool True), (''false'', JBool False),
               (''NaN'', JFloat NaN), (''Infinity'', JFloat PosInf),
               (''-Infinity'', JFloat NegInf)]"

fun scan_literal :: "(string \<times> json) list \<Rightarrow> string \<Rightarrow> (json \<times> string) option" where
  "scan_literal [] s = None"
| "scan_literal ((w, v) # ls) s =
     (if startswith s w then Some (v, drop (length w) s) else scan_literal ls s)"

definition punctuation :: "(char \<times> token) list" where
  "punctuation = [(CHR ''['', TLBracket), (CHR '']'', TRBracket), (CHR ''{'', TLBrace),
                  (CHR ''}'', TRBrace), (CHR '','', TComma), (CHR '':'', TColon)]"

text \<open>One token at the head of a text that does not start with white space.\<close>

definition scan_token :: "string \<Rightarrow> (token \<times> string) option" where
  "scan_token s =
     (case s of
        [] \<Rightarrow> None
      | c # cs \<Rightarrow>
          (case map_of punctuation c of
             Some t \<Rightarrow> Some (t, cs)
           | None \<Rightarrow>
               if c = CHR 0x22 then map_option (\<lambda>(str, r). (TAtom (JStr str), r)) (scan_string [] cs)
               else (case scan_literal literals s of
                       Some (v, r) \<Rightarrow> Some (TAtom v, r)
                     | None \<Rightarrow> map_option (\<lambda>(v, r). (TAtom v, r)) (scan_number s))))"

text \<open>
  The scanner: white space between tokens is skipped. A token has at least one
  character, so the text after it is shorter; the test on the lengths never fails and
  only makes the recursion evidently well-founded.
\<close>

function lex :: "string \<Rightarrow> token list option" where
  "lex s =
     (case dropWhile is_json_ws s of
        [] \<Rightarrow> Some []
      | c # cs \<Rightarrow>
          (case scan_token (c # cs) of
             None \<Rightarrow> None
           | Some (t, r) \<Rightarrow>
               if length r < length s then map_option ((#) t) (lex r) else None))"
  by pat_completeness auto
termination
  by (relation "measure length") simp_all

declare lex.simps [simp del]

text \<open>
  The stack machine. A frame is a list or a dict under construction, the dict with the
  key that awaits its value.
\<close>

datatype frame = ArrFrame "json list" | ObjFrame "(string \<times> json) list" "string option"

datatype pmode =
  WantValue | WantValueOrClose | WantKeyOrClose | WantKey | WantColon | AfterValue
  | Finished json

fun put_value :: "json \<Rightarrow> frame list \<Rightarrow> (pmode \<times> frame list) option" where
  "put_value v [] = Some (Finished v, [])"
| "put_value v (ArrFrame xs # st) = Some (AfterValue, ArrFrame (xs @ [v]) # st)"
| "put_value v (ObjFrame kvs (Some k) # st) = Some (AfterValue, ObjFrame (dict_set kvs k v) None # st)"
| "put_value v (ObjFrame kvs None # st) = None"

fun close_array :: "frame list \<Rightarrow> (pmode \<times> frame list) option" where
  "close_array (ArrFrame xs # st) = put_value (JArr xs) st"
| "close_array st = None"

fun close_object :: "frame list \<Rightarrow> (pmode \<times> frame list) option" where
  "close_object (ObjFrame kvs None # st) = put_value (JObj kvs) st"
| "close_object st = None"

fun take_key :: "string \<Rightarrow> frame list \<Rightarrow> (pmode \<times> frame list) option" where
  "take_key k (ObjFrame kvs None # st) = Some (WantColon, ObjFrame kvs (Some k) # st)"
| "take_key k st = None"

fun start_value :: "bool \<Rightarrow> frame list \<Rightarrow> token \<Rightarrow> (pmode \<times> frame list) option" where
  "start_value may_close st (TAtom v) = put_value v st"
| "start_value may_close st TLBracket = Some (WantValueOrClose, ArrFrame [] # st)"
| "start_value may_close st TLBrace = Some (WantKeyOrClose, ObjFrame [] None # st)"
| "start_value may_close st TRBracket = (if may_close then close_array st else None)"
| "start_value may_close st t = None"

fun pstep :: "pmode \<Rightarrow> frame list \<Rightarrow> token \<Rightarrow> (pmode \<times> frame list) option" where
  "pstep WantValue st t = start_value False st t"
| "pstep WantValueOrClose st t = start_value True st t"
| "pstep WantKeyOrClose st (TAtom (JStr k)) = take_key k st"
| "pstep WantKeyOrClose st TRBrace = close_object st"
| "pstep WantKey st (TAtom (JStr k)) = take_key k st"
| "pstep WantColon st TColon = Some (WantValue, st)"
| "pstep AfterValue (ArrFrame xs # st) TComma = Some (WantValue, ArrFrame xs # st)"
| "pstep AfterValue (ObjFrame kvs k # st) TComma = Some (WantKey, ObjFrame kvs k # st)"
| "pstep AfterValue st TRBracket = close_array st"
| "pstep AfterValue st TRBrace = close_object st"
| "pstep m st t = None"

fun prun :: "pmode \<Rightarrow> frame list \<Rightarrow> token list \<Rightarrow> json option" where
  "prun m st [] = (case m of Finished v \<Rightarrow> Some v | _ \<Rightarrow> None)"
| "prun m st (t # ts) = (case pstep m st t of None \<Rightarrow> None | Some (m', st') \<Rightarrow> prun m' st' ts)"

definition json_loads :: "string \<Rightarrow> json option" where
  "json_loads s = (case lex s of None \<Rightarrow> None | Some ts \<Rightarrow> prun WantValue [] ts)"

section \<open>Response parser (\<^verbatim>\<open>parse_ai_response\<close>)\<close>

definition any_char :: "char \<Rightarrow> bool" where
  "any_char c = True"

definition not_close_brace :: "char \<Rightarrow> bool" where
  "not_close_brace c = (c \<noteq> CHR ''}'')"

text \<open>The patterns \<^verbatim>\<open>\[[\s\S]*\]\<close> and \<^verbatim>\<open>\{[^}]+\}\<close>.\<close>

definition array_pattern :: regex where
  "array_pattern = seq [Lit ''['', Rep any_char 0, Lit '']'']"

definition object_pattern :: regex where
  "object_pattern = seq [Lit ''{'', Rep not_close_brace 1, Lit ''}'']"

text \<open>
  The first \<^verbatim>\<open>try\<close>: \<open>Some result\<close> is \<^verbatim>\<open>return result\<close>, \<open>None\<close> is falling through, because
  nothing matched, the text did not decode or the value is not a list.
\<close>

definition try_array :: "string \<Rightarrow> json list option" where
  "try_array response_text =
     (case re_search array_pattern response_text of
        None \<Rightarrow> None
      | Some array_match \<Rightarrow>
          (case json_loads (matched_text array_match) of
             Some (JArr result) \<Rightarrow> Some result
           | _ \<Rightarrow> None))"

definition try_object :: "string \<Rightarrow> json list option" where
  "try_object response_text =
     (case re_search object_pattern response_text of
        None \<Rightarrow> None
      | Some obj_match \<Rightarrow>
          (case json_loads (matched_text obj_match) of
             Some (JObj result) \<Rightarrow> Some [JObj result]
           | _ \<Rightarrow> None))"

definition parse_ai_response :: "string \<Rightarrow> json list" where
  "parse_ai_response response_text =
     (let response_text = strip response_text in
      case try_array response_text of
        Some result \<Rightarrow> result
      | None \<Rightarrow>
          (case try_object response_text of
             Some result \<Rightarrow> result
           | None \<Rightarrow> []))"

section \<open>Label mapping (\<^verbatim>\<open>map_category\<close>, \<^verbatim>\<open>map_emotion\<close>)\<close>

definition category_map :: "(string \<times> ExpenseCategory) list" where
  "category_map =
     [(''makanan & minuman'', MAKANAN_MINUMAN), (''makanan'', MAKANAN_MINUMAN),
      (''minuman'', MAKANAN_MINUMAN), (''food'', MAKANAN_MINUMAN),
      (''transport'', TRANSPORT), (''transportasi'', TRANSPORT),
      (''fashion'', FASHION), (''pakaian'', FASHION),
      (''hiburan'', HIBURAN), (''entertainment'', HIBURAN),
      (''belanja'', BELANJA), (''shopping'', BELANJA),
      (''tagihan'', TAGIHAN), (''bill'', TAGIHAN),
      (''lainnya'', LAINNYA), (''other'', LAINNYA)]"

definition emotion_map :: "(string \<times> EmotionLabel) list" where
  "emotion_map =
     [(''marah'', MARAH), (''angry'', MARAH), (''kesel'', MARAH),
      (''sedih'', SEDIH), (''sad'', SEDIH), (''nyesel'', SEDIH),
      (''senang'', SENANG), (''happy'', SENANG), (''bahagia'', SENANG),
      (''lapar'', LAPAR), (''hungry'', LAPAR),
      (''stress'', STRESS), (''stressed'', STRESS), (''capek'', STRESS),
      (''netral'', NETRAL), (''neutral'', NETRAL), (''biasa'', NETRAL)]"

text \<open>
  The argument comes from the decoded JSON and need not be a string: \<^verbatim>\<open>.lower()\<close> on
  anything else raises \<^verbatim>\<open>AttributeError\<close>.
\<close>

definition map_category :: "json \<Rightarrow> exn + ExpenseCategory" where
  "map_category category_str =
     (case category_str of
        JStr s \<Rightarrow> Inr (case map_of category_map (lower s) of Some c \<Rightarrow> c | None \<Rightarrow> LAINNYA)
      | _ \<Rightarrow> Inl AttributeError)"

definition map_emotion :: "json \<Rightarrow> exn + EmotionLabel" where
  "map_emotion emotion_str =
     (case emotion_str of
        JStr s \<Rightarrow> Inr (case map_of emotion_map (lower s) of Some e \<Rightarrow> e | None \<Rightarrow> NETRAL)
      | _ \<Rightarrow> Inl AttributeError)"

section \<open>Python's coercions on decoded values\<close>

text \<open>\<^verbatim>\<open>item.get(key, default)\<close>: only a dict has the method.\<close>

definition py_get :: "json \<Rightarrow> string \<Rightarrow> json \<Rightarrow> exn + json" where
  "py_get item k dflt =
     (case item of JObj kvs \<Rightarrow> Inr (dict_get kvs k dflt) | _ \<Rightarrow> Inl AttributeError)"

text \<open>The truth value of an object, as \<^verbatim>\<open>not amount\<close> tests it.\<close>

definition truthy :: "json \<Rightarrow> bool" where
  "truthy v =
     (case v of
        JNull \<Rightarrow> False
      | JBool b \<Rightarrow> b
      | JInt n \<Rightarrow> n \<noteq> 0
      | JFloat f \<Rightarrow> f \<noteq> Finite 0
      | JStr s \<Rightarrow> s \<noteq> []
      | JArr xs \<Rightarrow> xs \<noteq> []
      | JObj kvs \<Rightarrow> kvs \<noteq> [])"

text \<open>A run of digits with single underscores between them, as \<^verbatim>\<open>int\<close> and \<^verbatim>\<open>float\<close> accept it.\<close>

fun digitpart :: "string \<Rightarrow> bool" where
  "digitpart [] = False"
| "digitpart [c] = is_digit c"
| "digitpart (c # d # cs) =
     (is_digit c \<and> (if d = CHR ''_'' then digitpart cs else digitpart (d # cs)))"

text \<open>\<^verbatim>\<open>int(s)\<close> for a string: \<open>None\<close> is \<^verbatim>\<open>ValueError\<close>.\<close>

definition int_of_str :: "string \<Rightarrow> int option" where
  "int_of_str s =
     (case split_sign (strip s) of (neg, body) \<Rightarrow>
        if digitpart body
        then Some ((if neg then - 1 else 1) * digits_value (filter is_digit body))
        else None)"

definition digit_or_underscore :: "char \<Rightarrow> bool" where
  "digit_or_underscore c = (is_digit c \<or> c = CHR ''_'')"

text \<open>
  \<^verbatim>\<open>float(s)\<close> for a string: an optional sign, then \<^verbatim>\<open>inf\<close>, \<^verbatim>\<open>infinity\<close> or \<^verbatim>\<open>nan\<close> in any case,
  or a decimal with an optional fraction and exponent. \<open>None\<close> is \<^verbatim>\<open>ValueError\<close>.
\<close>

definition float_exponent :: "string \<Rightarrow> int option" where
  "float_exponent s =
     (case s of
        [] \<Rightarrow> Some 0
      | c # r \<Rightarrow>
          if c \<in> set ''eE'' then
            (case split_sign r of (neg, ds) \<Rightarrow>
               if digitpart ds
               then Some ((if neg then - 1 else 1) * digits_value (filter is_digit ds))
               else None)
          else None)"

definition float_of_decimal_str :: "bool \<Rightarrow> string \<Rightarrow> pyfloat option" where
  "float_of_decimal_str neg body =
     (let ip = takeWhile digit_or_underscore body;
          r1 = dropWhile digit_or_underscore body;
          has_dot = (case r1 of [] \<Rightarrow> False | c # _ \<Rightarrow> c = CHR ''.'');
          fp = (if has_dot then takeWhile digit_or_underscore (tl r1) else []);
          r2 = (if has_dot then dropWhile digit_or_underscore (tl r1) else r1)
      in if (ip = [] \<and> fp = []) \<or> (ip \<noteq> [] \<and> \<not> digitpart ip) \<or> (fp \<noteq> [] \<and> \<not> digitpart fp)
         then None
         else (case float_exponent r2 of
                 None \<Rightarrow> None
               | Some ex \<Rightarrow>
                   Some (float_of_rat (signed neg
                     (decimal_value (filter is_digit ip) (filter is_digit fp) ex)))))"

definition float_of_str :: "string \<Rightarrow> pyfloat option" where
  "float_of_str s =
     (case split_sign (strip s) of (neg, body) \<Rightarrow>
        if lower body = ''inf'' \<or> lower body = ''infinity''
        then Some (if neg then NegInf else PosInf)
        else if lower body = ''nan'' then Some NaN
        else float_of_decimal_str neg body)"

text \<open>\<^verbatim>\<open>int(v)\<close> and \<^verbatim>\<open>float(v)\<close> for a decoded value.\<close>

definition py_int :: "json \<Rightarrow> exn + int" where
  "py_int v =
     (case v of
        JNull \<Rightarrow> Inl TypeError
      | JBool b \<Rightarrow> Inr (if b then 1 else 0)
      | JInt n \<Rightarrow> Inr n
      | JFloat f \<Rightarrow> int_of_float f
      | JStr s \<Rightarrow> (case int_of_str s of Some n \<Rightarrow> Inr n | None \<Rightarrow> Inl ValueError)
      | JArr xs \<Rightarrow> Inl TypeError
      | JObj kvs \<Rightarrow> Inl TypeError)"

definition py_float :: "json \<Rightarrow> exn + pyfloat" where
  "py_float v =
     (case v of
        JNull \<Rightarrow> Inl TypeError
      | JBool b \<Rightarrow> Inr (Finite (if b then 1 else 0))
      | JInt n \<Rightarrow> (case float_of_rat (of_int n) of
                     Finite x \<Rightarrow> Inr (Finite x)
                   | _ \<Rightarrow> Inl OverflowError)
      | JFloat f \<Rightarrow> Inr f
      | JStr s \<Rightarrow> (case float_of_str s of Some f \<Rightarrow> Inr f | None \<Rightarrow> Inl ValueError)
      | JArr xs \<Rightarrow> Inl TypeError
      | JObj kvs \<Rightarrow> Inl TypeError)"

section \<open>The validated record (\<^verbatim>\<open>ExpenseExtraction\<close>)\<close>

record ExpenseExtraction =
  item_name :: string
  amount :: int
  category :: ExpenseCategory
  emotion :: EmotionLabel
  sentiment_score :: rat
  ai_confidence :: rat

text \<open>
  The constructor validates its fields: \<^verbatim>\<open>item_name\<close> must be a string, \<^verbatim>\<open>amount\<close> at
  least 0, \<^verbatim>\<open>sentiment_score\<close> in [-1, 1] and \<^verbatim>\<open>ai_confidence\<close> in [0, 1]; a non-finite
  float fails both bounds.
\<close>

definition in_range :: "pyfloat \<Rightarrow> rat \<Rightarrow> rat \<Rightarrow> bool" where
  "in_range f lo hi = (case f of Finite x \<Rightarrow> lo \<le> x \<and> x \<le> hi | _ \<Rightarrow> False)"

definition finite_value :: "pyfloat \<Rightarrow> rat" where
  "finite_value f = (case f of Finite x \<Rightarrow> x | _ \<Rightarrow> 0)"

definition new_ExpenseExtraction ::
  "json \<Rightarrow> int \<Rightarrow> ExpenseCategory \<Rightarrow> EmotionLabel \<Rightarrow> pyfloat \<Rightarrow> pyfloat \<Rightarrow> exn + ExpenseExtraction"
where
  "new_ExpenseExtraction name amt cat emo sentiment confidence =
     (case name of
        JStr s \<Rightarrow>
          if 0 \<le> amt \<and> in_range sentiment (- 1) 1 \<and> in_range confidence 0 1
          then Inr \<lparr>item_name = s, amount = amt, category = cat, emotion = emo,
                    sentiment_score = finite_value sentiment,
                    ai_confidence = finite_value confidence\<rparr>
          else Inl ValidationError
      | _ \<Rightarrow> Inl ValidationError)"

section \<open>Chat extraction (\<^verbatim>\<open>extract_multiple_expenses\<close>)\<close>

text \<open>
  The body of the loop over the parsed items: \<open>Inr None\<close> is \<^verbatim>\<open>continue\<close>, \<open>Inr (Some x)\<close>
  is \<^verbatim>\<open>expenses.append(x)\<close>, \<open>Inl e\<close> is an exception that leaves the loop.
\<close>

definition final_emotion_of ::
  "EmotionLabel \<Rightarrow> rat \<Rightarrow> json \<Rightarrow> EmotionLabel \<Rightarrow> exn + (EmotionLabel \<times> pyfloat)" where
  "final_emotion_of detected_emotion detected_sentiment item ai_emotion =
     (if ai_emotion = NETRAL \<and> detected_emotion \<noteq> NETRAL
      then Inr (detected_emotion, Finite detected_sentiment)
      else and_then (py_get item ''sentiment_score'' (JFloat (Finite (dbl 0.0)))) (\<lambda>s.
           and_then (py_float s) (\<lambda>final_sentiment.
           Inr (ai_emotion, final_sentiment))))"

definition expense_of_item ::
  "EmotionLabel \<Rightarrow> rat \<Rightarrow> json \<Rightarrow> exn + ExpenseExtraction option" where
  "expense_of_item detected_emotion detected_sentiment item =
     and_then (py_get item ''amount'' (JInt 0)) (\<lambda>amount.
     if \<not> truthy amount then Inr None
     else
     and_then (py_get item ''emotion'' (JStr ''Netral'')) (\<lambda>emotion_str.
     and_then (map_emotion emotion_str) (\<lambda>ai_emotion.
     and_then (final_emotion_of detected_emotion detected_sentiment item ai_emotion)
       (\<lambda>(final_emotion, final_sentiment).
     and_then (py_get item ''item_name'' (JStr ''Unknown Item'')) (\<lambda>name.
     and_then (py_int amount) (\<lambda>amt.
     and_then (py_get item ''category'' (JStr ''Lainnya'')) (\<lambda>category_str.
     and_then (map_category category_str) (\<lambda>cat.
     and_then (py_get item ''ai_confidence'' (JFloat (Finite (dbl 0.7)))) (\<lambda>c.
     and_then (py_float c) (\<lambda>confidence.
     and_then (new_ExpenseExtraction name amt cat final_emotion final_sentiment confidence)
       (\<lambda>x. Inr (Some x))))))))))))"

fun expenses_loop ::
  "EmotionLabel \<Rightarrow> rat \<Rightarrow> json list \<Rightarrow> ExpenseExtraction list \<Rightarrow> exn + ExpenseExtraction list"
where
  "expenses_loop de ds [] expenses = Inr expenses"
| "expenses_loop de ds (item # parsed_items) expenses =
     and_then (expense_of_item de ds item) (\<lambda>r.
       expenses_loop de ds parsed_items
         (case r of None \<Rightarrow> expenses | Some x \<Rightarrow> expenses @ [x]))"

text \<open>
  The remote completion call is outside the repository. Its outcome for a request is
  either an exception or the content of the first choice, which may be \<^verbatim>\<open>None\<close>.
\<close>

datatype remote_outcome = Raises | Content "string option"

text \<open>The two fallback records, built when \<^verbatim>\<open>extract_amount_fallback\<close> finds a truthy amount.\<close>

definition fallback_no_items :: "string \<Rightarrow> exn + ExpenseExtraction list" where
  "fallback_no_items user_message =
     and_then (extract_amount_fallback user_message) (\<lambda>fallback_amt.
       case fallback_amt of
         None \<Rightarrow> Inr []
       | Some n \<Rightarrow>
           if n \<noteq> 0
           then and_then (new_ExpenseExtraction (JStr ''Pengeluaran'') n LAINNYA NETRAL
                            (Finite (dbl 0.0)) (Finite (dbl 0.4)))
                  (\<lambda>x. Inr [x])
           else Inr [])"

definition fallback_on_error :: "string \<Rightarrow> exn + ExpenseExtraction list" where
  "fallback_on_error user_message =
     and_then (extract_amount_fallback user_message) (\<lambda>fallback_amount.
       case fallback_amount of
         None \<Rightarrow> Inr []
       | Some n \<Rightarrow>
           if n \<noteq> 0
           then (case detect_emotion_from_text user_message of
                   (detected_emotion, detected_sentiment) \<Rightarrow>
                     and_then (new_ExpenseExtraction (JStr ''Item tidak terdeteksi'') n LAINNYA
                                 detected_emotion (Finite detected_sentiment) (Finite (dbl 0.3)))
                       (\<lambda>x. Inr [x]))
           else Inr [])"

text \<open>The body of the \<^verbatim>\<open>try\<close> statement.\<close>

definition try_block :: "remote_outcome \<Rightarrow> string \<Rightarrow> exn + ExpenseExtraction list" where
  "try_block outcome user_message =
     (case outcome of
        Raises \<Rightarrow> Inl RemoteError
      | Content None \<Rightarrow> Inl AttributeError
      | Content (Some response_text) \<Rightarrow>
          (let parsed_items = parse_ai_response response_text in
           if parsed_items = [] then fallback_no_items user_message
           else (case detect_emotion_from_text user_message of
                   (detected_emotion, detected_sentiment) \<Rightarrow>
                     expenses_loop detected_emotion detected_sentiment parsed_items [])))"

text \<open>
  The entry point. \<open>remote\<close> is the completion call, applied to the normalized message;
  \<^verbatim>\<open>except Exception\<close> catches every exception of the model.
\<close>

definition extract_multiple_expenses ::
  "(string \<Rightarrow> remote_outcome) \<Rightarrow> string \<Rightarrow> exn + ExpenseExtraction list" where
  "extract_multiple_expenses remote user_message =
     (if \<not> has_expense_pattern user_message then Inr []
      else (let normalized_message = normalize_amount_string user_message in
            case try_block (remote normalized_message) user_message of
              Inr expenses \<Rightarrow> Inr expenses
            | Inl e \<Rightarrow> fallback_on_error user_message))"

section \<open>Receipt text parser (\<^verbatim>\<open>parse_receipt_response\<close>, \<^verbatim>\<open>src/services/scanner.py\<close>)\<close>

record ReceiptItem =
  name :: string
  quantity :: int
  price :: int

record ReceiptData =
  store_name :: string
  total_amount :: int
  date :: "string option"
  items :: "ReceiptItem list"
  raw_text :: "string option"

text \<open>\<^verbatim>\<open>ReceiptData(raw_text=response_text)\<close>: every other field at its default.\<close>

definition raw_only :: "string \<Rightarrow> ReceiptData" where
  "raw_only response_text =
     \<lparr>store_name = ''Unknown Store'', total_amount = 0, date = None, items = [],
      raw_text = Some response_text\<rparr>"

text \<open>
  The bracket counting loop, run on the text from the first \<^verbatim>\<open>{\<close>: the number of
  characters up to and including the brace that brings the count back to zero, \<open>None\<close>
  when the loop ends without its \<^verbatim>\<open>break\<close>.
\<close>

fun brace_span :: "int \<Rightarrow> string \<Rightarrow> nat option" where
  "brace_span bracket_count [] = None"
| "brace_span bracket_count (c # cs) =
     (if c = CHR ''{'' then map_option Suc (brace_span (bracket_count + 1) cs)
      else if c = CHR ''}'' then
        (if bracket_count - 1 = 0 then Some 1
         else map_option Suc (brace_span (bracket_count - 1) cs))
      else map_option Suc (brace_span bracket_count cs))"

text \<open>\<^verbatim>\<open>response_text[start_idx:end_idx]\<close>; \<^verbatim>\<open>end_idx\<close> stays at \<^verbatim>\<open>start_idx\<close> without the break.\<close>

definition json_str_of :: "string \<Rightarrow> string" where
  "json_str_of response_text =
     (let from_brace = dropWhile (\<lambda>c. c \<noteq> CHR ''{'') response_text in
      case brace_span 0 from_brace of
        Some n \<Rightarrow> take n from_brace
      | None \<Rightarrow> [])"

text \<open>
  The decoded object, by the direct parse or by bracket matching. \<open>None\<close> covers the
  early \<^verbatim>\<open>return ReceiptData(raw_text=response_text)\<close> and the decode error of the second
  \<^verbatim>\<open>json.loads\<close>, which the outer handler turns into the same result.
\<close>

definition load_receipt_json :: "string \<Rightarrow> json option" where
  "load_receipt_json response_text =
     (case json_loads (strip response_text) of
        Some data \<Rightarrow> Some data
      | None \<Rightarrow>
          if CHR ''{'' \<notin> set response_text then None
          else json_loads (json_str_of response_text))"

text \<open>
  \<^verbatim>\<open>ReceiptItem(name=..., quantity=int(...), price=int(...))\<close>; the constructor wants a
  string as name.
\<close>

definition new_ReceiptItem :: "json \<Rightarrow> int \<Rightarrow> int \<Rightarrow> exn + ReceiptItem" where
  "new_ReceiptItem n q p =
     (case n of
        JStr s \<Rightarrow> Inr \<lparr>name = s, quantity = q, price = p\<rparr>
      | _ \<Rightarrow> Inl ValidationError)"

definition receipt_item_of :: "json \<Rightarrow> exn + ReceiptItem" where
  "receipt_item_of item =
     and_then (py_get item ''name'' (JStr ''Unknown'')) (\<lambda>n.
     and_then (py_get item ''quantity'' (JInt 1)) (\<lambda>q.
     and_then (py_int q) (\<lambda>quantity.
     and_then (py_get item ''price'' (JInt 0)) (\<lambda>p.
     and_then (py_int p) (\<lambda>price.
     new_ReceiptItem n quantity price)))))"

text \<open>
  \<^verbatim>\<open>except (ValueError, TypeError)\<close>: the validation error of the constructor is a
  \<^verbatim>\<open>ValueError\<close>.
\<close>

definition item_handler_catches :: "exn \<Rightarrow> bool" where
  "item_handler_catches e = (e = ValueError \<or> e = TypeError \<or> e = ValidationError)"

fun items_loop :: "json list \<Rightarrow> ReceiptItem list \<Rightarrow> exn + ReceiptItem list" where
  "items_loop [] acc = Inr acc"
| "items_loop (item # rest) acc =
     (case receipt_item_of item of
        Inr r \<Rightarrow> items_loop rest (acc @ [r])
      | Inl e \<Rightarrow> if item_handler_catches e then items_loop rest acc else Inl e)"

text \<open>What a \<^verbatim>\<open>for\<close> loop iterates over.\<close>

definition py_iter :: "json \<Rightarrow> exn + json list" where
  "py_iter v =
     (case v of
        JArr xs \<Rightarrow> Inr xs
      | JStr s \<Rightarrow> Inr (map (\<lambda>c. JStr [c]) s)
      | JObj kvs \<Rightarrow> Inr (map (\<lambda>(k, v). JStr k) kvs)
      | _ \<Rightarrow> Inl TypeError)"

definition new_ReceiptData ::
  "json \<Rightarrow> int \<Rightarrow> json \<Rightarrow> ReceiptItem list \<Rightarrow> string \<Rightarrow> exn + ReceiptData" where
  "new_ReceiptData store tot d its response_text =
     (case store of
        JStr s \<Rightarrow>
          (case d of
             JNull \<Rightarrow> Inr \<lparr>store_name = s, total_amount = tot, date = None, items = its,
                           raw_text = Some response_text\<rparr>
           | JStr ds \<Rightarrow> Inr \<lparr>store_name = s, total_amount = tot, date = Some ds, items = its,
                             raw_text = Some response_text\<rparr>
           | _ \<Rightarrow> Inl ValidationError)
      | _ \<Rightarrow> Inl ValidationError)"

definition build_receipt :: "json \<Rightarrow> string \<Rightarrow> exn + ReceiptData" where
  "build_receipt data response_text =
     and_then (py_get data ''items'' (JArr [])) (\<lambda>items_json.
     and_then (py_iter items_json) (\<lambda>item_list.
     and_then (items_loop item_list []) (\<lambda>its.
     and_then (py_get data ''store_name'' (JStr ''Unknown Store'')) (\<lambda>store.
     and_then (py_get data ''total_amount'' (JInt 0)) (\<lambda>t.
     and_then (py_int t) (\<lambda>tot.
     and_then (py_get data ''date'' JNull) (\<lambda>d.
     new_ReceiptData store tot d its response_text)))))))"

definition parse_receipt_response :: "string \<Rightarrow> ReceiptData" where
  "parse_receipt_response response_text =
     (case load_receipt_json response_text of
        None \<Rightarrow> raw_only response_text
      | Some data \<Rightarrow>
          (case build_receipt data response_text of
             Inr result \<Rightarrow> result
           | Inl e \<Rightarrow> raw_only response_text))"

section \<open>Notions used in the statements\<close>

text \<open>
  The end of the amount patterns: optional white space, the suffix, a word boundary.
\<close>

definition tail_matches :: "string \<Rightarrow> string \<Rightarrow> string \<Rightarrow> bool" where
  "tail_matches sfx bef rest \<longleftrightarrow>
     (\<exists>j \<le> length (takeWhile is_space rest).
        startswith (drop j rest) sfx
        \<and> at_boundary (rev sfx @ rev (take j rest) @ bef) (drop (length sfx) (drop j rest)))"

text \<open>
  What one pass of the loop body appends to \<^verbatim>\<open>expenses\<close>: the record it builds, or nothing
  when it takes \<^verbatim>\<open>continue\<close>.
\<close>

definition kept :: "EmotionLabel \<Rightarrow> rat \<Rightarrow> json \<Rightarrow> ExpenseExtraction list" where
  "kept de ds item = (case expense_of_item de ds item of Inr (Some x) \<Rightarrow> [x] | _ \<Rightarrow> [])"

section \<open>Sample texts\<close>

text \<open>Responses of the completion call.\<close>

definition apology_response :: string where
  "apology_response = ''Maaf, aku tidak menemukan pengeluaran.''"

definition zero_amount_response :: string where
  \<open>zero_amount_response =
     ''[{"item_name": "Teh", "amount": "0"}, {"item_name": "Kopi", "amount": 25000}]''\<close>

definition bad_amount_response :: string where
  \<open>bad_amount_response =
     ''[{"item_name": "Teh", "amount": 5000}, {"item_name": "Kopi", "amount": "25rb"}]''\<close>

definition two_items_response :: string where
  \<open>two_items_response =
     ''[{"item_name": "Teh", "amount": 5000}, {"item_name": "Kopi", "amount": 25000}]''\<close>

definition trailing_array :: string where
  \<open>trailing_array = ''[{"amount": 5000}, {"amount": 7000}]''\<close>

definition noted_response :: string where
  "noted_response = ''lihat [catatan] '' @ trailing_array"

definition prose_then_array :: string where
  "prose_then_array = ''Berikut hasilnya: '' @ trailing_array"

text \<open>Responses of the receipt call: the example of the specification, and a receipt with an infinite quantity, a receipt with a quantity in words.\<close>

definition toko_receipt :: string where
  \<open>toko_receipt =
     ''{"store_name":"Toko A","total_amount":15000,"items":[{"name":"Kopi","price":15000}]}''\<close>

definition overflow_receipt :: string where
  \<open>overflow_receipt =
     ''{"store_name":"Toko A","total_amount":15000,"items":[{"name":"Kopi","price":15000},{"name":"Teh","quantity":Infinity,"price":5000}]}''\<close>

definition worded_receipt :: string where
  \<open>worded_receipt =
     ''{"store_name":"Toko A","total_amount":15000,"items":[{"name":"Kopi","quantity":"dua","price":15000},{"name":"Teh","price":"5000"}]}''\<close>
section \<open>Substring containment\<close>

lemma startswith_iff_prefix: "startswith s p \<longleftrightarrow> prefix p s"
  by (induction s p rule: startswith.induct) auto

lemma contains_iff_sublist: "contains s w \<longleftrightarrow> sublist w s"
proof (induction s)
  case Nil
  show ?case by simp
next
  case (Cons c cs)
  show ?case
  proof (cases w)
    case Nil
    then show ?thesis by simp
  next
    case (Cons a as)
    with Cons.IH show ?thesis
      by (auto simp: startswith_iff_prefix sublist_Cons_right)
  qed
qed

lemma word_loop_hits_iff:
  "word_loop_hits words s \<longleftrightarrow> (\<exists>w \<in> set words. sublist w s)"
  by (induction words) (auto simp: contains_iff_sublist)

section \<open>Properties of the emotion detector\<close>

text \<open>
  Claim C6. On every input the emotion detector returns one (emotion, sentiment) pair,
  fixed by the keyword vocabularies in the priority order anger (Marah, -0.6), sadness
  (Sedih, -0.5), stress (Stress, -0.4), happiness (Senang, +0.7), hunger (Lapar, +0.1):
  the first vocabulary with a keyword occurring in the lowercased message decides, the
  later ones are not consulted, and a message with no keyword yields (Netral, 0.0).
  The scores are the doubles that the literals of the source denote.
\<close>

theorem detect_emotion_priority_order:
  "detect_emotion_from_text m =
     (if \<exists>w \<in> set anger_words. sublist w (lower m) then (MARAH, - dbl 0.6)
      else if \<exists>w \<in> set sad_words. sublist w (lower m) then (SEDIH, - dbl 0.5)
      else if \<exists>w \<in> set stress_words. sublist w (lower m) then (STRESS, - dbl 0.4)
      else if \<exists>w \<in> set happy_words. sublist w (lower m) then (SENANG, dbl 0.7)
      else if \<exists>w \<in> set hunger_words. sublist w (lower m) then (LAPAR, dbl 0.1)
      else (NETRAL, dbl 0.0))"
  unfolding detect_emotion_from_text_def Let_def word_loop_hits_iff by (rule refl)

theorem detect_emotion_priority_order_witness:
  "detect_emotion_from_text ''capek tapi seneng, laper'' = (STRESS, - dbl 0.4)
   \<and> (\<exists>w \<in> set stress_words. sublist w (lower ''capek tapi seneng, laper''))
   \<and> (\<exists>w \<in> set happy_words. sublist w (lower ''capek tapi seneng, laper''))
   \<and> \<not> (\<exists>w \<in> set anger_words. sublist w (lower ''capek tapi seneng, laper''))
   \<and> \<not> (\<exists>w \<in> set sad_words. sublist w (lower ''capek tapi seneng, laper''))"
proof -
  have a: "\<not> word_loop_hits anger_words (lower ''capek tapi seneng, laper'')"
    by code_simp
  have s: "\<not> word_loop_hits sad_words (lower ''capek tapi seneng, laper'')"
    by code_simp
  have t: "word_loop_hits stress_words (lower ''capek tapi seneng, laper'')"
    by code_simp
  have h: "word_loop_hits happy_words (lower ''capek tapi seneng, laper'')"
    by code_simp
  show ?thesis
    using a s t h detect_emotion_priority_order [of "''capek tapi seneng, laper''"]
    unfolding word_loop_hits_iff by simp
qed



section \<open>Properties of the gate\<close>






section \<open>Reasoning about the matcher\<close>

lemma rmatch_Cat_empty:
  "rmatch (Cat r1 r2) st = [] \<longleftrightarrow> (\<forall>s1 \<in> set (rmatch r1 st). rmatch r2 s1 = [])"
  by simp

lemma set_rmatch_Rep:
  "set (rmatch (Rep p n) (bef, rest, caps)) =
     (\<lambda>j. (rev (take j rest) @ bef, drop j rest, caps)) ` {n .. length (takeWhile p rest)}"
  by (simp del: upt_Suc add: atLeastLessThanSuc_atLeastAtMost)

lemma set_rmatch_Grp:
  "set (rmatch (Grp i r) (bef, rest, caps)) =
     (\<lambda>(bef', rest', caps').
        (bef', rest', (i, rev (take (length bef' - length bef) bef')) # caps'))
       ` set (rmatch r (bef, rest, caps))"
  by simp

lemma rmatch_Lit_Wb_empty:
  "rmatch (Cat (Lit sfx) Wb) (bef, rest, caps) = []
     \<longleftrightarrow> \<not> (startswith rest sfx \<and> at_boundary (rev sfx @ bef) (drop (length sfx) rest))"
  by simp

lemma rmatch_Grp_Alt_Wb_empty:
  "rmatch (Cat (Grp i (Alt (Lit a) (Lit b))) Wb) (bef, rest, caps) = []
     \<longleftrightarrow> \<not> (startswith rest a \<and> at_boundary (rev a @ bef) (drop (length a) rest))
         \<and> \<not> (startswith rest b \<and> at_boundary (rev b @ bef) (drop (length b) rest))"
  by auto

lemma Cls_then_empty:
  "rmatch (Cat (Cls p) r) (bef, rest, caps) = []
     \<longleftrightarrow> (\<forall>c cs. rest = c # cs \<and> p c \<longrightarrow> rmatch r (c # bef, cs, caps) = [])"
  by (cases rest) simp_all

text \<open>From here on the matcher is unfolded only where a proof asks for it.\<close>

declare rmatch.simps [simp del]

text \<open>
  \<^verbatim>\<open>re.search\<close> finds nothing exactly when the pattern matches at no position of the
  subject.
\<close>

lemma search_from_None_iff:
  "search_from r bef s = None
     \<longleftrightarrow> (\<forall>xs ys. s = xs @ ys \<longrightarrow> rmatch r (rev xs @ bef, ys, []) = [])"
proof (induction s arbitrary: bef)
  case Nil
  show ?case by (simp split: list.splits)
next
  case (Cons c cs)
  have "search_from r bef (c # cs) = None
          \<longleftrightarrow> rmatch r (bef, c # cs, []) = [] \<and> search_from r (c # bef) cs = None"
    by (simp split: list.splits)
  also have "\<dots> \<longleftrightarrow> rmatch r (bef, c # cs, []) = []
                 \<and> (\<forall>xs ys. cs = xs @ ys \<longrightarrow> rmatch r (rev xs @ c # bef, ys, []) = [])"
    by (simp only: Cons.IH)
  also have "\<dots> \<longleftrightarrow> (\<forall>xs ys. c # cs = xs @ ys \<longrightarrow> rmatch r (rev xs @ bef, ys, []) = [])"
  proof
    assume a: "rmatch r (bef, c # cs, []) = []
                 \<and> (\<forall>xs ys. cs = xs @ ys \<longrightarrow> rmatch r (rev xs @ c # bef, ys, []) = [])"
    show "\<forall>xs ys. c # cs = xs @ ys \<longrightarrow> rmatch r (rev xs @ bef, ys, []) = []"
    proof (intro allI impI)
      fix xs ys
      assume e: "c # cs = xs @ ys"
      show "rmatch r (rev xs @ bef, ys, []) = []"
      proof (cases xs)
        case Nil
        with e a show ?thesis by simp
      next
        case (Cons x xs')
        with e have "cs = xs' @ ys" and "x = c" by simp_all
        with a Cons show ?thesis by simp
      qed
    qed
  next
    assume a: "\<forall>xs ys. c # cs = xs @ ys \<longrightarrow> rmatch r (rev xs @ bef, ys, []) = []"
    have "rmatch r (bef, c # cs, []) = []"
      using a [rule_format, of "[]" "c # cs"] by simp
    moreover have "rmatch r (rev xs @ c # bef, ys, []) = []" if "cs = xs @ ys" for xs ys
      using a [rule_format, of "c # xs" ys] that by simp
    ultimately show "rmatch r (bef, c # cs, []) = []
                 \<and> (\<forall>xs ys. cs = xs @ ys \<longrightarrow> rmatch r (rev xs @ c # bef, ys, []) = [])"
      by blast
  qed
  finally show ?case .
qed

lemma re_search_None_iff:
  "re_search r s = None \<longleftrightarrow> (\<forall>xs ys. s = xs @ ys \<longrightarrow> rmatch r (rev xs, ys, []) = [])"
  by (simp add: re_search_def search_from_None_iff)

lemma ball_Rep:
  "(\<forall>s1 \<in> set (rmatch (Rep p n) (bef, rest, caps)). P s1)
     \<longleftrightarrow> (\<forall>j. n \<le> j \<and> j \<le> length (takeWhile p rest)
               \<longrightarrow> P (rev (take j rest) @ bef, drop j rest, caps))"
  unfolding set_rmatch_Rep by auto

lemma ball_Grp:
  "(\<forall>s1 \<in> set (rmatch (Grp i r) (bef, rest, caps)). P s1)
     \<longleftrightarrow> (\<forall>bef' rest' caps'. (bef', rest', caps') \<in> set (rmatch r (bef, rest, caps))
               \<longrightarrow> P (bef', rest', (i, rev (take (length bef' - length bef) bef')) # caps'))"
  unfolding set_rmatch_Grp by auto

lemma tail_empty:
  "rmatch (Cat spaces0 (Cat (Lit sfx) Wb)) (bef, rest, caps) = []
     \<longleftrightarrow> \<not> tail_matches sfx bef rest"
proof -
  have "rmatch (Cat spaces0 (Cat (Lit sfx) Wb)) (bef, rest, caps) = []
      \<longleftrightarrow> (\<forall>s1 \<in> set (rmatch (Rep is_space 0) (bef, rest, caps)).
             rmatch (Cat (Lit sfx) Wb) s1 = [])"
    unfolding spaces0_def by (rule rmatch_Cat_empty)
  also have "\<dots> \<longleftrightarrow> (\<forall>j. 0 \<le> j \<and> j \<le> length (takeWhile is_space rest)
      \<longrightarrow> rmatch (Cat (Lit sfx) Wb) (rev (take j rest) @ bef, drop j rest, caps) = [])"
    by (rule ball_Rep)
  also have "\<dots> \<longleftrightarrow> \<not> tail_matches sfx bef rest"
    unfolding tail_matches_def rmatch_Lit_Wb_empty by auto
  finally show ?thesis .
qed

lemma group_tail_empty:
  "rmatch (Cat spaces0 (Cat (Grp i (Alt (Lit a) (Lit b))) Wb)) (bef, rest, caps) = []
     \<longleftrightarrow> \<not> tail_matches a bef rest \<and> \<not> tail_matches b bef rest"
proof -
  note one = rmatch_Grp_Alt_Wb_empty
  have "rmatch (Cat spaces0 (Cat (Grp i (Alt (Lit a) (Lit b))) Wb)) (bef, rest, caps) = []
      \<longleftrightarrow> (\<forall>s1 \<in> set (rmatch (Rep is_space 0) (bef, rest, caps)).
             rmatch (Cat (Grp i (Alt (Lit a) (Lit b))) Wb) s1 = [])"
    unfolding spaces0_def by (rule rmatch_Cat_empty)
  also have "\<dots> \<longleftrightarrow> (\<forall>j. 0 \<le> j \<and> j \<le> length (takeWhile is_space rest)
      \<longrightarrow> rmatch (Cat (Grp i (Alt (Lit a) (Lit b))) Wb)
            (rev (take j rest) @ bef, drop j rest, caps) = [])"
    by (rule ball_Rep)
  also have "\<dots> \<longleftrightarrow> \<not> tail_matches a bef rest \<and> \<not> tail_matches b bef rest"
    unfolding tail_matches_def one by auto
  finally show ?thesis .
qed

lemma amount_with_suffix_empty:
  "rmatch (amount_with_suffix sfx) (bef, rest, caps) = []
     \<longleftrightarrow> \<not> (\<exists>k. 1 \<le> k \<and> k \<le> length (takeWhile is_digit rest)
               \<and> tail_matches sfx (rev (take k rest) @ bef) (drop k rest))"
proof -
  have "rmatch (amount_with_suffix sfx) (bef, rest, caps) = []
      \<longleftrightarrow> (\<forall>s1 \<in> set (rmatch (Grp 1 (Rep is_digit 1)) (bef, rest, caps)).
             rmatch (Cat spaces0 (Cat (Lit sfx) Wb)) s1 = [])"
    unfolding amount_with_suffix_def seq.simps digits1_def by (rule rmatch_Cat_empty)
  also have "\<dots> \<longleftrightarrow> (\<forall>bef' rest' caps'.
      (bef', rest', caps') \<in> set (rmatch (Rep is_digit 1) (bef, rest, caps))
        \<longrightarrow> \<not> tail_matches sfx bef' rest')"
    unfolding ball_Grp tail_empty ..
  also have "\<dots> \<longleftrightarrow> (\<forall>s1 \<in> set (rmatch (Rep is_digit 1) (bef, rest, caps)).
      \<not> tail_matches sfx (fst s1) (fst (snd s1)))"
    by (simp add: Ball_def)
  also have "\<dots> \<longleftrightarrow> (\<forall>k. 1 \<le> k \<and> k \<le> length (takeWhile is_digit rest)
        \<longrightarrow> \<not> tail_matches sfx (rev (take k rest) @ bef) (drop k rest))"
    unfolding ball_Rep by simp
  finally show ?thesis by blast
qed

section \<open>Properties of the fallback extractor\<close>

lemma digit_val_nonneg: "0 \<le> digit_val c"
  by (auto simp: digit_val_def split: option.splits if_splits)

lemma foldl_digits_nonneg:
  "0 \<le> acc \<Longrightarrow> 0 \<le> foldl (\<lambda>acc c. 10 * acc + digit_val c) acc ds"
proof (induction ds arbitrary: acc)
  case Nil
  then show ?case by simp
next
  case (Cons d ds)
  have "0 \<le> 10 * acc + digit_val d"
    using Cons.prems digit_val_nonneg [of d] by simp
  then show ?case
    using Cons.IH by simp
qed

lemma digits_value_nonneg: "0 \<le> digits_value ds"
  unfolding digits_value_def by (rule foldl_digits_nonneg) simp

lemma suffix_loop_None_iff:
  "suffix_loop ms msg = None
     \<longleftrightarrow> (\<forall>(sfx, m) \<in> set ms. re_search (amount_with_suffix sfx) msg = None)"
  by (induction ms msg rule: suffix_loop.induct) (auto split: option.splits)

lemma suffix_loop_nonneg:
  "suffix_loop ms msg = Some n \<Longrightarrow> \<forall>(sfx, m) \<in> set ms. 0 \<le> m \<Longrightarrow> 0 \<le> n"
  by (induction ms msg rule: suffix_loop.induct)
     (auto split: option.splits simp: digits_value_nonneg)

lemma digits_group_then_empty:
  "rmatch (Cat (Grp i digits1) r) (bef, rest, caps) = []
     \<longleftrightarrow> (\<forall>k. 1 \<le> k \<and> k \<le> length (takeWhile is_digit rest)
            \<longrightarrow> (\<exists>c. rmatch r (rev (take k rest) @ bef, drop k rest, c) = []
                     \<and> c = (i, rev (take (length (rev (take k rest) @ bef) - length bef)
                                       (rev (take k rest) @ bef))) # caps))"
proof -
  have "rmatch (Cat (Grp i digits1) r) (bef, rest, caps) = []
      \<longleftrightarrow> (\<forall>s1 \<in> set (rmatch (Grp i (Rep is_digit 1)) (bef, rest, caps)). rmatch r s1 = [])"
    unfolding digits1_def by (rule rmatch_Cat_empty)
  also have "\<dots> \<longleftrightarrow> (\<forall>s1 \<in> set (rmatch (Rep is_digit 1) (bef, rest, caps)).
      rmatch r (fst s1, fst (snd s1),
                (i, rev (take (length (fst s1) - length bef) (fst s1))) # snd (snd s1)) = [])"
    unfolding ball_Grp by auto
  also have "\<dots> \<longleftrightarrow> (\<forall>k. 1 \<le> k \<and> k \<le> length (takeWhile is_digit rest)
            \<longrightarrow> (\<exists>c. rmatch r (rev (take k rest) @ bef, drop k rest, c) = []
                     \<and> c = (i, rev (take (length (rev (take k rest) @ bef) - length bef)
                                       (rev (take k rest) @ bef))) # caps))"
    unfolding ball_Rep by simp
  finally show ?thesis .
qed

text \<open>
  Where the decimal pattern \<^verbatim>\<open>(\d+)[.,](\d+)\s*(jt|juta)\b\<close> matches, the pattern
  \<^verbatim>\<open>(\d+)\s*jt\b\<close> or \<^verbatim>\<open>(\d+)\s*juta\b\<close> matches from the digits after the separator.
\<close>

lemma decimal_amount_matches_suffix:
  assumes "rmatch (decimal_amount (Grp 3 (alts [Lit ''jt'', Lit ''juta'']))) (bef, rest, caps) \<noteq> []"
  shows "\<exists>xs ys. rest = xs @ ys
           \<and> (rmatch (amount_with_suffix ''jt'') (rev xs @ bef, ys, []) \<noteq> []
              \<or> rmatch (amount_with_suffix ''juta'') (rev xs @ bef, ys, []) \<noteq> [])"
proof -
  let ?tail = "Cat spaces0 (Cat (Grp 3 (Alt (Lit ''jt'') (Lit ''juta''))) Wb)"
  have shape: "decimal_amount (Grp 3 (alts [Lit ''jt'', Lit ''juta'']))
      = Cat (Grp 1 digits1) (Cat (Cls decimal_sep) (Cat (Grp 2 digits1) ?tail))"
    by (simp add: decimal_amount_def)
  from assms obtain k c1 where k: "1 \<le> k" "k \<le> length (takeWhile is_digit rest)"
    and m1: "rmatch (Cat (Cls decimal_sep) (Cat (Grp 2 digits1) ?tail))
               (rev (take k rest) @ bef, drop k rest, c1) \<noteq> []"
    unfolding shape digits_group_then_empty by blast
  from m1 obtain c cs where cs: "drop k rest = c # cs"
    and m2: "rmatch (Cat (Grp 2 digits1) ?tail) (c # rev (take k rest) @ bef, cs, c1) \<noteq> []"
    unfolding Cls_then_empty by blast
  from m2 obtain k2 c2 where k2: "1 \<le> k2" "k2 \<le> length (takeWhile is_digit cs)"
    and m3: "rmatch ?tail (rev (take k2 cs) @ c # rev (take k rest) @ bef, drop k2 cs, c2) \<noteq> []"
    unfolding digits_group_then_empty by blast
  from m3 have t: "tail_matches ''jt'' (rev (take k2 cs) @ c # rev (take k rest) @ bef) (drop k2 cs)
      \<or> tail_matches ''juta'' (rev (take k2 cs) @ c # rev (take k rest) @ bef) (drop k2 cs)"
    unfolding group_tail_empty by blast
  have split: "rest = (take k rest @ [c]) @ cs"
    using cs by (metis append.assoc append_Cons append_Nil append_take_drop_id)
  have bef: "rev (take k rest @ [c]) @ bef = c # rev (take k rest) @ bef"
    by simp
  from t k2 have "rmatch (amount_with_suffix ''jt'') (c # rev (take k rest) @ bef, cs, []) \<noteq> []
      \<or> rmatch (amount_with_suffix ''juta'') (c # rev (take k rest) @ bef, cs, []) \<noteq> []"
    unfolding amount_with_suffix_empty by blast
  with split bef show ?thesis
    by metis
qed

text \<open>
  So the branch for decimal millions is never reached: a text it would match has
  already been answered by the loop over the suffixes.
\<close>

lemma decimal_branch_dead:
  assumes "suffix_loop multipliers msg = None"
  shows "re_search (decimal_amount (Grp 3 (alts [Lit ''jt'', Lit ''juta'']))) msg = None"
proof (rule ccontr)
  assume "re_search (decimal_amount (Grp 3 (alts [Lit ''jt'', Lit ''juta'']))) msg \<noteq> None"
  then obtain xs ys where msg: "msg = xs @ ys"
    and m: "rmatch (decimal_amount (Grp 3 (alts [Lit ''jt'', Lit ''juta'']))) (rev xs, ys, []) \<noteq> []"
    unfolding re_search_None_iff by blast
  from decimal_amount_matches_suffix [OF m] obtain xs' ys' where ys: "ys = xs' @ ys'"
    and s: "rmatch (amount_with_suffix ''jt'') (rev xs' @ rev xs, ys', []) \<noteq> []
            \<or> rmatch (amount_with_suffix ''juta'') (rev xs' @ rev xs, ys', []) \<noteq> []"
    by blast
  have msg': "msg = (xs @ xs') @ ys'" and r: "rev (xs @ xs') = rev xs' @ rev xs"
    using msg ys by simp_all
  from s have "re_search (amount_with_suffix ''jt'') msg \<noteq> None
      \<or> re_search (amount_with_suffix ''juta'') msg \<noteq> None"
    unfolding re_search_None_iff using msg' r by metis
  moreover from assms have "re_search (amount_with_suffix ''jt'') msg = None"
    and "re_search (amount_with_suffix ''juta'') msg = None"
    unfolding suffix_loop_None_iff multipliers_def by simp_all
  ultimately show False by blast
qed

text \<open>
  The fallback extractor therefore raises no exception: it returns the amount of the
  first suffix that matches, else a run of four or more digits, else nothing.
\<close>

lemma extract_amount_fallback_eq:
  "extract_amount_fallback msg =
     Inr (case suffix_loop multipliers (lower msg) of
            Some n \<Rightarrow> Some n
          | None \<Rightarrow>
              (case re_search (Grp 1 (Rep is_digit 4)) (lower msg) of
                 Some (bef, bef', rest', caps) \<Rightarrow> Some (digits_value (group caps 1))
               | None \<Rightarrow> None))"
proof (cases "suffix_loop multipliers (lower msg)")
  case None
  from decimal_branch_dead [OF None] None show ?thesis
    by (simp add: extract_amount_fallback_def Let_def split: option.splits)
next
  case (Some n)
  then show ?thesis
    by (simp add: extract_amount_fallback_def Let_def)
qed

lemma extract_amount_fallback_returns: "\<exists>r. extract_amount_fallback msg = Inr r"
  unfolding extract_amount_fallback_eq by blast

lemma extract_amount_fallback_nonneg:
  assumes "extract_amount_fallback msg = Inr (Some n)"
  shows "0 \<le> n"
proof (cases "suffix_loop multipliers (lower msg)")
  case None
  with assms show ?thesis
    unfolding extract_amount_fallback_eq
    by (auto split: option.splits simp: digits_value_nonneg)
next
  case (Some k)
  have "\<forall>(sfx, m) \<in> set multipliers. 0 \<le> m"
    by (simp add: multipliers_def)
  from suffix_loop_nonneg [OF Some this] Some assms show ?thesis
    unfolding extract_amount_fallback_eq by simp
qed

section \<open>Properties of the chat extraction\<close>

lemma and_then_Inl [simp]: "and_then (Inl e) f = Inl e"
  by (simp add: and_then_def)

lemma and_then_Inr [simp]: "and_then (Inr v) f = f v"
  by (simp add: and_then_def)


lemma and_then_raises:
  "(\<exists>e. and_then x f = Inl e) \<longleftrightarrow> (\<exists>e. x = Inl e) \<or> (\<exists>v e. x = Inr v \<and> f v = Inl e)"
  by (cases x) simp_all

text \<open>The float literals of the source, as doubles.\<close>

lemma dbl_zero: "dbl 0 = 0"
  by (simp add: dbl_def)

lemma dbl_literals_in_range:
  "0 \<le> dbl 0.6 \<and> dbl 0.6 \<le> 1" "0 \<le> dbl 0.5 \<and> dbl 0.5 \<le> 1" "0 \<le> dbl 0.4 \<and> dbl 0.4 \<le> 1"
  "0 \<le> dbl 0.7 \<and> dbl 0.7 \<le> 1" "0 \<le> dbl 0.1 \<and> dbl 0.1 \<le> 1" "0 \<le> dbl 0.3 \<and> dbl 0.3 \<le> 1"
  by code_simp+

lemma dbl_confidences: "dbl 0.3 \<le> dbl 0.4"
  by code_simp

lemma detect_emotion_cases:
  "detect_emotion_from_text m \<in>
     {(MARAH, - dbl 0.6), (SEDIH, - dbl 0.5), (STRESS, - dbl 0.4), (SENANG, dbl 0.7),
      (LAPAR, dbl 0.1), (NETRAL, dbl 0.0)}"
  by (simp add: detect_emotion_from_text_def Let_def)

lemma detected_sentiment_in_range:
  "in_range (Finite (snd (detect_emotion_from_text m))) (- 1) 1"
  using detect_emotion_cases [of m] dbl_literals_in_range
  by (auto simp: in_range_def dbl_zero)

text \<open>The record of the exception handler, and the record of the empty parse.\<close>

lemma fallback_on_error_eq:
  "fallback_on_error m =
     (case extract_amount_fallback m of
        Inr (Some n) \<Rightarrow>
          if n \<noteq> 0
          then Inr [\<lparr>item_name = ''Item tidak terdeteksi'', amount = n, category = LAINNYA,
                     emotion = fst (detect_emotion_from_text m),
                     sentiment_score = snd (detect_emotion_from_text m),
                     ai_confidence = dbl 0.3\<rparr>]
          else Inr []
      | _ \<Rightarrow> Inr [])"
proof -
  obtain r where r: "extract_amount_fallback m = Inr r"
    using extract_amount_fallback_returns by blast
  show ?thesis
  proof (cases r)
    case None
    with r show ?thesis by (simp add: fallback_on_error_def)
  next
    case (Some n)
    with r have "0 \<le> n" by (auto dest: extract_amount_fallback_nonneg)
    with r Some detected_sentiment_in_range [of m] dbl_literals_in_range show ?thesis
      by (cases "detect_emotion_from_text m")
         (auto simp: fallback_on_error_def new_ExpenseExtraction_def in_range_def
                     finite_value_def)
  qed
qed

lemma fallback_no_items_eq:
  "fallback_no_items m =
     (case extract_amount_fallback m of
        Inr (Some n) \<Rightarrow>
          if n \<noteq> 0
          then Inr [\<lparr>item_name = ''Pengeluaran'', amount = n, category = LAINNYA,
                     emotion = NETRAL, sentiment_score = 0, ai_confidence = dbl 0.4\<rparr>]
          else Inr []
      | _ \<Rightarrow> Inr [])"
proof -
  obtain r where r: "extract_amount_fallback m = Inr r"
    using extract_amount_fallback_returns by blast
  show ?thesis
  proof (cases r)
    case None
    with r show ?thesis by (simp add: fallback_no_items_def)
  next
    case (Some n)
    with r have "0 \<le> n" by (auto dest: extract_amount_fallback_nonneg)
    with r Some dbl_literals_in_range show ?thesis
      by (simp add: fallback_no_items_def new_ExpenseExtraction_def in_range_def
                    finite_value_def dbl_zero)
  qed
qed

lemma fallback_on_error_short: "\<exists>xs. fallback_on_error m = Inr xs \<and> length xs \<le> 1"
  unfolding fallback_on_error_eq by (auto split: sum.splits option.splits)




lemma extract_handler:
  "has_expense_pattern m \<Longrightarrow> try_block (remote (normalize_amount_string m)) m = Inl e
     \<Longrightarrow> extract_multiple_expenses remote m = fallback_on_error m"
  by (simp add: extract_multiple_expenses_def Let_def)

lemma extract_normal:
  "has_expense_pattern m \<Longrightarrow> try_block (remote (normalize_amount_string m)) m = Inr xs
     \<Longrightarrow> extract_multiple_expenses remote m = Inr xs"
  by (simp add: extract_multiple_expenses_def Let_def)



lemma expense_of_item_falsy:
  "py_get item ''amount'' (JInt 0) = Inr a \<Longrightarrow> \<not> truthy a
     \<Longrightarrow> expense_of_item de ds item = Inr None"
  by (simp add: expense_of_item_def)

lemma expense_of_item_amount_raises:
  assumes "py_get item ''amount'' (JInt 0) = Inr a" and "truthy a" and "py_int a = Inl e"
  shows "\<exists>e'. expense_of_item de ds item = Inl e'"
proof -
  show ?thesis
    unfolding expense_of_item_def
    using assms
    by (auto simp: and_then_def split: sum.splits prod.splits)
qed

lemma expense_of_item_confidence_raises:
  assumes "py_get item ''amount'' (JInt 0) = Inr a" and "truthy a"
    and "py_get item ''ai_confidence'' (JFloat (Finite (dbl 0.7))) = Inr c"
    and "py_float c = Inl e"
  shows "\<exists>e'. expense_of_item de ds item = Inl e'"
  unfolding expense_of_item_def
  using assms
  by (auto simp: and_then_def split: sum.splits prod.splits)

text \<open>The loop: it stops at the first exception, and otherwise keeps the appended records in order.\<close>

lemma expenses_loop_raises:
  "\<exists>item \<in> set parsed_items. \<exists>e. expense_of_item de ds item = Inl e
     \<Longrightarrow> \<exists>e. expenses_loop de ds parsed_items acc = Inl e"
proof (induction parsed_items arbitrary: acc)
  case Nil
  then show ?case by simp
next
  case (Cons item parsed_items)
  show ?case
  proof (cases "expense_of_item de ds item")
    case (Inl e)
    then show ?thesis by simp
  next
    case (Inr r)
    with Cons.prems have "\<exists>item \<in> set parsed_items. \<exists>e. expense_of_item de ds item = Inl e"
      by auto
    from Cons.IH [OF this] Inr show ?thesis by simp
  qed
qed

lemma expenses_loop_keeps:
  "\<forall>item \<in> set parsed_items. \<forall>e. expense_of_item de ds item \<noteq> Inl e
     \<Longrightarrow> expenses_loop de ds parsed_items acc
           = Inr (acc @ concat (map (kept de ds) parsed_items))"
proof (induction parsed_items arbitrary: acc)
  case Nil
  then show ?case by simp
next
  case (Cons item parsed_items)
  from Cons.prems obtain r where r: "expense_of_item de ds item = Inr r"
    by (cases "expense_of_item de ds item") auto
  from Cons.prems have "\<forall>item \<in> set parsed_items. \<forall>e. expense_of_item de ds item \<noteq> Inl e"
    by simp
  from Cons.IH [OF this] r show ?case
    by (cases r) (simp_all add: kept_def)
qed


section \<open>The chat extraction: exceptions, fallback records, amounts, batches\<close>

text \<open>Sample runs, evaluated.\<close>

lemma ayam_accepted: "has_expense_pattern ''abis beli ayam 12000 anjing''"
  by code_simp

lemma ayam_fallback: "extract_amount_fallback ''abis beli ayam 12000 anjing'' = Inr (Some 12000)"
  by code_simp

lemma ayam_emotion: "detect_emotion_from_text ''abis beli ayam 12000 anjing'' = (MARAH, - dbl 0.6)"
  by code_simp

lemma apology_parse: "parse_ai_response apology_response = []"
  by code_simp

lemma apology_run:
  "extract_multiple_expenses (\<lambda>_. Content (Some apology_response)) ''abis beli ayam 12000 anjing''
     = Inr [\<lparr>item_name = ''Pengeluaran'', amount = 12000, category = LAINNYA,
              emotion = NETRAL, sentiment_score = dbl 0.0, ai_confidence = dbl 0.4\<rparr>]"
  by code_simp

lemma zero_amount_parse:
  \<open>parse_ai_response zero_amount_response =
     [JObj [(''item_name'', JStr ''Teh''), (''amount'', JStr ''0'')],
      JObj [(''item_name'', JStr ''Kopi''), (''amount'', JInt 25000)]]\<close>
  by code_simp


lemma teh_accepted: "has_expense_pattern ''beli teh 5000 sama kopi 25k''"
  by code_simp

lemma teh_emotion: "detect_emotion_from_text ''beli teh 5000 sama kopi 25k'' = (NETRAL, dbl 0.0)"
  by code_simp

lemma teh_fallback:
  "fallback_on_error ''beli teh 5000 sama kopi 25k''
     = Inr [\<lparr>item_name = ''Item tidak terdeteksi'', amount = 25000, category = LAINNYA,
              emotion = NETRAL, sentiment_score = dbl 0.0, ai_confidence = dbl 0.3\<rparr>]"
  by code_simp

lemma bad_amount_parse:
  "parse_ai_response bad_amount_response =
     [JObj [(''item_name'', JStr ''Teh''), (''amount'', JInt 5000)],
      JObj [(''item_name'', JStr ''Kopi''), (''amount'', JStr ''25rb'')]]"
  by code_simp

lemma bad_amount_run:
  "extract_multiple_expenses (\<lambda>_. Content (Some bad_amount_response)) ''beli teh 5000 sama kopi 25k''
     = Inr [\<lparr>item_name = ''Item tidak terdeteksi'', amount = 25000, category = LAINNYA,
              emotion = NETRAL, sentiment_score = dbl 0.0, ai_confidence = dbl 0.3\<rparr>]"
  by code_simp

lemma teh_kept:
  "kept NETRAL (dbl 0.0) (JObj [(''item_name'', JStr ''Teh''), (''amount'', JInt 5000)])
     = [\<lparr>item_name = ''Teh'', amount = 5000, category = LAINNYA,
          emotion = NETRAL, sentiment_score = dbl 0.0, ai_confidence = dbl 0.7\<rparr>]"
  by code_simp

lemma two_items_parse:
  "parse_ai_response two_items_response =
     [JObj [(''item_name'', JStr ''Teh''), (''amount'', JInt 5000)],
      JObj [(''item_name'', JStr ''Kopi''), (''amount'', JInt 25000)]]"
  by code_simp



text \<open>
  Claim C2, amended. For an accepted message in which \<^verbatim>\<open>extract_amount_fallback\<close> finds a
  nonzero amount \<open>n\<close>, the two fallback paths return one record each, and the records
  differ. When the \<^verbatim>\<open>try\<close> body raises, the record is named \<^verbatim>\<open>Item tidak terdeteksi\<close>,
  carries the emotion and sentiment of \<^verbatim>\<open>detect_emotion_from_text\<close> and the confidence 0.3.
  When the response parses to no candidate, the record is named \<^verbatim>\<open>Pengeluaran\<close>, is
  always \<^verbatim>\<open>Netral\<close> with sentiment 0.0, and has the confidence 0.4.
\<close>

theorem fallback_records:
  assumes "has_expense_pattern m"
    and "extract_amount_fallback m = Inr (Some n)"
    and "n \<noteq> 0"
  shows "(try_block (remote (normalize_amount_string m)) m = Inl e \<longrightarrow>
            extract_multiple_expenses remote m =
              Inr [\<lparr>item_name = ''Item tidak terdeteksi'', amount = n, category = LAINNYA,
                     emotion = fst (detect_emotion_from_text m),
                     sentiment_score = snd (detect_emotion_from_text m),
                     ai_confidence = dbl 0.3\<rparr>])
       \<and> (remote (normalize_amount_string m) = Content (Some r) \<and> parse_ai_response r = [] \<longrightarrow>
            extract_multiple_expenses remote m =
              Inr [\<lparr>item_name = ''Pengeluaran'', amount = n, category = LAINNYA,
                     emotion = NETRAL, sentiment_score = dbl 0.0, ai_confidence = dbl 0.4\<rparr>])
       \<and> dbl 0.3 \<le> dbl 0.4"
proof (intro conjI impI)
  assume "try_block (remote (normalize_amount_string m)) m = Inl e"
  with assms(1) have "extract_multiple_expenses remote m = fallback_on_error m"
    by (rule extract_handler)
  with assms(2,3) show "extract_multiple_expenses remote m =
      Inr [\<lparr>item_name = ''Item tidak terdeteksi'', amount = n, category = LAINNYA,
             emotion = fst (detect_emotion_from_text m),
             sentiment_score = snd (detect_emotion_from_text m),
             ai_confidence = dbl 0.3\<rparr>]"
    by (simp add: fallback_on_error_eq)
next
  assume "remote (normalize_amount_string m) = Content (Some r) \<and> parse_ai_response r = []"
  then have "try_block (remote (normalize_amount_string m)) m = fallback_no_items m"
    by (simp add: try_block_def)
  with assms(2,3) have "try_block (remote (normalize_amount_string m)) m =
      Inr [\<lparr>item_name = ''Pengeluaran'', amount = n, category = LAINNYA,
             emotion = NETRAL, sentiment_score = dbl 0.0, ai_confidence = dbl 0.4\<rparr>]"
    by (simp add: fallback_no_items_eq dbl_zero)
  with assms(1) show "extract_multiple_expenses remote m =
      Inr [\<lparr>item_name = ''Pengeluaran'', amount = n, category = LAINNYA,
             emotion = NETRAL, sentiment_score = dbl 0.0, ai_confidence = dbl 0.4\<rparr>]"
    by (rule extract_normal)
next
  show "dbl 0.3 \<le> dbl 0.4" by (rule dbl_confidences)
qed

theorem fallback_records_witness:
  "extract_multiple_expenses (\<lambda>_. Raises) ''abis beli ayam 12000 anjing'' =
     Inr [\<lparr>item_name = ''Item tidak terdeteksi'', amount = 12000, category = LAINNYA,
            emotion = MARAH, sentiment_score = - dbl 0.6, ai_confidence = dbl 0.3\<rparr>]
   \<and> extract_multiple_expenses (\<lambda>_. Content (Some apology_response))
         ''abis beli ayam 12000 anjing'' =
     Inr [\<lparr>item_name = ''Pengeluaran'', amount = 12000, category = LAINNYA,
            emotion = NETRAL, sentiment_score = dbl 0.0, ai_confidence = dbl 0.4\<rparr>]
   \<and> dbl 0.3 \<le> dbl 0.4"
proof -
  have raised: "try_block Raises ''abis beli ayam 12000 anjing'' = Inl RemoteError"
    by (simp add: try_block_def)
  have nonzero: "(12000 :: int) \<noteq> 0"
    by simp
  from fallback_records [OF ayam_accepted ayam_fallback nonzero, of "\<lambda>_. Raises" RemoteError]
    raised ayam_emotion
  have first: "extract_multiple_expenses (\<lambda>_. Raises) ''abis beli ayam 12000 anjing'' =
     Inr [\<lparr>item_name = ''Item tidak terdeteksi'', amount = 12000, category = LAINNYA,
            emotion = MARAH, sentiment_score = - dbl 0.6, ai_confidence = dbl 0.3\<rparr>]"
    by simp
  from fallback_records [OF ayam_accepted ayam_fallback nonzero,
      of "\<lambda>_. Content (Some apology_response)" _ apology_response] apology_parse
  have second: "extract_multiple_expenses (\<lambda>_. Content (Some apology_response))
         ''abis beli ayam 12000 anjing'' =
     Inr [\<lparr>item_name = ''Pengeluaran'', amount = 12000, category = LAINNYA,
            emotion = NETRAL, sentiment_score = dbl 0.0, ai_confidence = dbl 0.4\<rparr>]"
    by simp
  from first second dbl_confidences show ?thesis
    by (intro conjI)
qed

text \<open>
  The record after an empty parse is neither labelled with the detected emotion nor
  named as an unidentified item: the message below is detected as \<^verbatim>\<open>Marah\<close>, and the
  record is \<^verbatim>\<open>Netral\<close> and named \<^verbatim>\<open>Pengeluaran\<close>.
\<close>

theorem empty_parse_record_is_neutral:
  "(\<exists>x. extract_multiple_expenses (\<lambda>_. Content (Some apology_response))
            ''abis beli ayam 12000 anjing'' = Inr [x]
        \<and> item_name x = ''Pengeluaran'' \<and> emotion x = NETRAL \<and> sentiment_score x = dbl 0.0)
   \<and> detect_emotion_from_text ''abis beli ayam 12000 anjing'' = (MARAH, - dbl 0.6)
   \<and> parse_ai_response apology_response = []"
  using apology_run ayam_emotion apology_parse by simp




text \<open>
  Claim C1, amended. The batch is all or nothing. The loop over the candidates runs
  inside the one \<^verbatim>\<open>try\<close> statement of the entry point: when a candidate with a truthy
  amount has an amount that \<^verbatim>\<open>int\<close> rejects or a confidence that \<^verbatim>\<open>float\<close> rejects, or when
  the loop body raises for any other reason, every candidate is discarded and the result
  is that of the exception handler, at most one fallback record for the whole message.
  Only when no candidate raises is the result the records of the candidates in order,
  without those that have a falsy amount.
\<close>

theorem batch_all_or_nothing:
  assumes "has_expense_pattern m"
    and "remote (normalize_amount_string m) = Content (Some r)"
    and "parse_ai_response r \<noteq> []"
    and "detect_emotion_from_text m = (de, ds)"
  shows "((\<exists>item \<in> set (parse_ai_response r). \<exists>a.
             py_get item ''amount'' (JInt 0) = Inr a \<and> truthy a \<and>
             ((\<exists>e. py_int a = Inl e) \<or>
              (\<exists>c e. py_get item ''ai_confidence'' (JFloat (Finite (dbl 0.7))) = Inr c
                     \<and> py_float c = Inl e)))
           \<longrightarrow> extract_multiple_expenses remote m = fallback_on_error m)
      \<and> ((\<exists>item \<in> set (parse_ai_response r). \<exists>e. expense_of_item de ds item = Inl e)
           \<longrightarrow> extract_multiple_expenses remote m = fallback_on_error m)
      \<and> ((\<forall>item \<in> set (parse_ai_response r). \<forall>e. expense_of_item de ds item \<noteq> Inl e)
           \<longrightarrow> extract_multiple_expenses remote m
                 = Inr (concat (map (kept de ds) (parse_ai_response r))))
      \<and> (\<exists>xs. fallback_on_error m = Inr xs \<and> length xs \<le> 1)"
proof -
  let ?items = "parse_ai_response r"
  have body: "try_block (remote (normalize_amount_string m)) m = expenses_loop de ds ?items []"
    using assms by (simp add: try_block_def)
  have raised: "extract_multiple_expenses remote m = fallback_on_error m"
    if "\<exists>item \<in> set ?items. \<exists>e. expense_of_item de ds item = Inl e"
  proof -
    from expenses_loop_raises [OF that] obtain e
      where "expenses_loop de ds ?items [] = Inl e"
      by blast
    with body have "try_block (remote (normalize_amount_string m)) m = Inl e"
      by simp
    with assms(1) show ?thesis
      by (rule extract_handler)
  qed
  have coercion: "extract_multiple_expenses remote m = fallback_on_error m"
    if "\<exists>item \<in> set ?items. \<exists>a.
             py_get item ''amount'' (JInt 0) = Inr a \<and> truthy a \<and>
             ((\<exists>e. py_int a = Inl e) \<or>
              (\<exists>c e. py_get item ''ai_confidence'' (JFloat (Finite (dbl 0.7))) = Inr c
                     \<and> py_float c = Inl e))"
  proof -
    from that obtain item a where item: "item \<in> set ?items"
      and a: "py_get item ''amount'' (JInt 0) = Inr a" "truthy a"
      and bad: "(\<exists>e. py_int a = Inl e) \<or>
              (\<exists>c e. py_get item ''ai_confidence'' (JFloat (Finite (dbl 0.7))) = Inr c
                     \<and> py_float c = Inl e)"
      by blast
    from bad have "\<exists>e. expense_of_item de ds item = Inl e"
    proof
      assume "\<exists>e. py_int a = Inl e"
      with a show ?thesis
        by (blast dest: expense_of_item_amount_raises)
    next
      assume "\<exists>c e. py_get item ''ai_confidence'' (JFloat (Finite (dbl 0.7))) = Inr c
                     \<and> py_float c = Inl e"
      with a show ?thesis
        by (blast dest: expense_of_item_confidence_raises)
    qed
    with item show ?thesis
      by (intro raised) blast
  qed
  have clean: "extract_multiple_expenses remote m = Inr (concat (map (kept de ds) ?items))"
    if "\<forall>item \<in> set ?items. \<forall>e. expense_of_item de ds item \<noteq> Inl e"
  proof -
    from expenses_loop_keeps [OF that, of "[]"] body
    have "try_block (remote (normalize_amount_string m)) m
            = Inr (concat (map (kept de ds) ?items))"
      by simp
    with assms(1) show ?thesis
      by (rule extract_normal)
  qed
  from coercion raised clean fallback_on_error_short [of m] show ?thesis
    by blast
qed

theorem batch_all_or_nothing_witness:
  "extract_multiple_expenses (\<lambda>_. Content (Some bad_amount_response))
       ''beli teh 5000 sama kopi 25k''
     = fallback_on_error ''beli teh 5000 sama kopi 25k''
   \<and> py_int (JStr ''25rb'') = Inl ValueError
   \<and> length (parse_ai_response bad_amount_response) = 2"
proof -
  let ?item = "JObj [(''item_name'', JStr ''Kopi''), (''amount'', JStr ''25rb'')]"
  have member: "?item \<in> set (parse_ai_response bad_amount_response)"
    by (simp add: bad_amount_parse)
  have amount: "py_get ?item ''amount'' (JInt 0) = Inr (JStr ''25rb'')"
    by code_simp
  have truthy: "truthy (JStr ''25rb'')"
    by code_simp
  have rejected: "py_int (JStr ''25rb'') = Inl ValueError"
    by code_simp
  from member amount truthy rejected
  have bad: "\<exists>item \<in> set (parse_ai_response bad_amount_response). \<exists>a.
             py_get item ''amount'' (JInt 0) = Inr a \<and> truthy a \<and>
             ((\<exists>e. py_int a = Inl e) \<or>
              (\<exists>c e. py_get item ''ai_confidence'' (JFloat (Finite (dbl 0.7))) = Inr c
                     \<and> py_float c = Inl e))"
    by blast
  have nonempty: "parse_ai_response bad_amount_response \<noteq> []"
    by (simp add: bad_amount_parse)
  from batch_all_or_nothing [OF teh_accepted _ nonempty teh_emotion,
      of "\<lambda>_. Content (Some bad_amount_response)"] bad
  have "extract_multiple_expenses (\<lambda>_. Content (Some bad_amount_response))
       ''beli teh 5000 sama kopi 25k''
     = fallback_on_error ''beli teh 5000 sama kopi 25k''"
    by simp
  with rejected show ?thesis
    by (simp add: bad_amount_parse)
qed

text \<open>
  One candidate with an amount that \<^verbatim>\<open>int\<close> rejects costs the valid candidate beside it:
  alone, the first candidate gives a record of 5000, but the batch returns the single
  fallback record of 25000.
\<close>

theorem bad_amount_discards_batch:
  "(\<exists>xs. extract_multiple_expenses (\<lambda>_. Content (Some bad_amount_response))
            ''beli teh 5000 sama kopi 25k'' = Inr xs
        \<and> map item_name xs = [''Item tidak terdeteksi''] \<and> map amount xs = [25000])
   \<and> map amount (kept NETRAL (dbl 0.0)
        (JObj [(''item_name'', JStr ''Teh''), (''amount'', JInt 5000)])) = [5000]"
  using bad_amount_run teh_kept by simp
section \<open>The spans of the response parser\<close>

text \<open>The first success of a backtracking choice is the first alternative that has one.\<close>

lemma concat_map_first:
  "js = as @ k # bs \<Longrightarrow> \<forall>j \<in> set as. f j = [] \<Longrightarrow> f k = y # ys
     \<Longrightarrow> concat (map f js) = y # ys @ concat (map f bs)"
  by simp

lemma rev_upt_split:
  assumes "n \<le> k" and "k \<le> m"
  shows "rev [n ..< Suc m] = rev [Suc k ..< Suc m] @ k # rev [n ..< k]"
proof -
  from assms have "[n ..< Suc m] = [n ..< k] @ [k ..< Suc m]"
    using upt_add_eq_append [of n k "Suc m - k"] by simp
  also from assms have "[k ..< Suc m] = k # [Suc k ..< Suc m]"
    by (simp add: upt_conv_Cons)
  finally show ?thesis
    by simp
qed

lemma startswith_singleton: "startswith s [c] \<longleftrightarrow> (\<exists>t. s = c # t)"
  by (cases s) auto

lemma rmatch_Rep_then_Lit:
  "rmatch (Cat (Rep p n) (Lit w)) (bef, rest, caps) =
     concat (map (\<lambda>j. if startswith (drop j rest) w
                       then [(rev w @ rev (take j rest) @ bef, drop (length w) (drop j rest), caps)]
                       else [])
                 (rev [n ..< Suc (length (takeWhile p rest))]))"
  by (simp add: rmatch.simps comp_def)

text \<open>
  A search passes over the positions at which the pattern cannot match, and stops at the
  first position at which it can.
\<close>

lemma search_from_skip:
  assumes "\<forall>c \<in> set pre. \<forall>cs b. rmatch r (b, c # cs, []) = []"
  shows "search_from r bef (pre @ c0 # rest) = search_from r (rev pre @ bef) (c0 # rest)"
  using assms
proof (induction pre arbitrary: bef)
  case Nil
  show ?case by simp
next
  case (Cons a pre)
  from Cons.prems have "rmatch r (bef, a # pre @ c0 # rest, []) = []"
    by simp
  then have "search_from r bef ((a # pre) @ c0 # rest) = search_from r (a # bef) (pre @ c0 # rest)"
    by simp
  also from Cons.prems have "\<dots> = search_from r (rev pre @ a # bef) (c0 # rest)"
    by (intro Cons.IH) simp
  finally show ?case by simp
qed

lemma search_from_here:
  "rmatch r (bef, c # cs, []) = m # ms \<Longrightarrow> search_from r bef (c # cs) = Some (bef, m)"
  by simp

text \<open>
  The pattern \<^verbatim>\<open>\[[\s\S]*\]\<close> can only begin at a \<^verbatim>\<open>[\<close>, and from there its greedy
  repetition runs to the end of the text and backs up to the last \<^verbatim>\<open>]\<close>.
\<close>

lemma array_pattern_not_here:
  "c \<noteq> CHR ''['' \<Longrightarrow> rmatch array_pattern (bef, c # cs, caps) = []"
  by (simp add: array_pattern_def rmatch.simps)

lemma array_pattern_here:
  assumes "CHR '']'' \<notin> set post"
  shows "\<exists>ms. rmatch array_pattern (bef, CHR ''['' # mid @ CHR '']'' # post, caps)
           = (rev (CHR ''['' # mid @ [CHR '']'']) @ bef, post, caps) # ms"
proof -
  let ?rest = "mid @ CHR '']'' # post"
  let ?f = "\<lambda>j. if startswith (drop j ?rest) '']''
               then [(rev '']'' @ rev (take j ?rest) @ CHR ''['' # bef,
                      drop (length '']'') (drop j ?rest), caps)]
               else []"
  have whole: "takeWhile any_char ?rest = ?rest"
    by (simp add: any_char_def)
  have split: "rev [0 ..< Suc (length ?rest)]
      = rev [Suc (length mid) ..< Suc (length ?rest)] @ length mid # rev [0 ..< length mid]"
    by (rule rev_upt_split) simp_all
  have later: "\<forall>j \<in> set (rev [Suc (length mid) ..< Suc (length ?rest)]). ?f j = []"
  proof
    fix j
    assume "j \<in> set (rev [Suc (length mid) ..< Suc (length ?rest)])"
    then have "length mid < j" by (simp del: upt_Suc)
    then obtain d where "j = Suc (length mid + d)"
      by (auto simp: less_iff_Suc_add)
    then have "drop j ?rest = drop (j - Suc (length mid)) post"
      by simp
    moreover have "\<not> startswith (drop (j - Suc (length mid)) post) '']''"
    proof
      assume "startswith (drop (j - Suc (length mid)) post) '']''"
      then obtain t where "drop (j - Suc (length mid)) post = CHR '']'' # t"
        by (auto simp: startswith_singleton)
      then have "CHR '']'' \<in> set (drop (j - Suc (length mid)) post)"
        by simp
      with assms show False
        by (blast dest: in_set_dropD)
    qed
    ultimately show "?f j = []" by simp
  qed
  have last: "?f (length mid) = [(rev (CHR ''['' # mid @ [CHR '']'']) @ bef, post, caps)]"
    by simp
  have "rmatch array_pattern (bef, CHR ''['' # ?rest, caps)
          = rmatch (Cat (Rep any_char 0) (Lit '']'')) (CHR ''['' # bef, ?rest, caps)"
    by (simp add: array_pattern_def rmatch.simps)
  also have "\<dots> = concat (map ?f (rev [0 ..< Suc (length ?rest)]))"
    unfolding rmatch_Rep_then_Lit whole ..
  also have "\<dots> = (rev (CHR ''['' # mid @ [CHR '']'']) @ bef, post, caps)
                   # [] @ concat (map ?f (rev [0 ..< length mid]))"
    by (rule concat_map_first [where f = ?f, OF split later last])
  finally show ?thesis by simp
qed

lemma re_search_array_pattern:
  assumes "CHR ''['' \<notin> set pre" and "CHR '']'' \<notin> set post"
  shows "\<exists>m. re_search array_pattern (pre @ CHR ''['' # mid @ CHR '']'' # post) = Some m
            \<and> matched_text m = CHR ''['' # mid @ [CHR '']'']"
proof -
  from assms(1) have "\<forall>c \<in> set pre. \<forall>cs b. rmatch array_pattern (b, c # cs, []) = []"
    by (auto intro: array_pattern_not_here)
  then have "re_search array_pattern (pre @ CHR ''['' # mid @ CHR '']'' # post)
      = search_from array_pattern (rev pre @ []) (CHR ''['' # mid @ CHR '']'' # post)"
    unfolding re_search_def by (rule search_from_skip)
  moreover from array_pattern_here [OF assms(2)] obtain ms
    where "rmatch array_pattern (rev pre @ [], CHR ''['' # mid @ CHR '']'' # post, [])
           = (rev (CHR ''['' # mid @ [CHR '']'']) @ rev pre @ [], post, []) # ms"
    by blast
  ultimately have "re_search array_pattern (pre @ CHR ''['' # mid @ CHR '']'' # post)
      = Some (rev pre @ [], (rev (CHR ''['' # mid @ [CHR '']'']) @ rev pre @ [], post, []))"
    by (simp only: search_from_here)
  then show ?thesis
    by (simp add: matched_text_def)
qed

lemma re_search_array_pattern_None:
  "CHR ''['' \<notin> set s \<Longrightarrow> re_search array_pattern s = None"
proof -
  assume no: "CHR ''['' \<notin> set s"
  have "rmatch array_pattern (rev xs, ys, []) = []" if "s = xs @ ys" for xs ys
  proof (cases ys)
    case Nil
    then show ?thesis by (simp add: array_pattern_def rmatch.simps)
  next
    case (Cons c cs)
    with no that have "c \<noteq> CHR ''[''" by auto
    with Cons show ?thesis by (simp add: array_pattern_not_here)
  qed
  then show ?thesis
    by (simp add: re_search_None_iff)
qed

text \<open>
  The pattern \<^verbatim>\<open>\{[^}]+\}\<close> can only begin at a \<^verbatim>\<open>{\<close>, and from there it runs to the next
  \<^verbatim>\<open>}\<close>, with at least one character in between.
\<close>

lemma object_pattern_not_here:
  "c \<noteq> CHR ''{'' \<Longrightarrow> rmatch object_pattern (bef, c # cs, caps) = []"
  by (simp add: object_pattern_def rmatch.simps)

lemma object_pattern_here:
  assumes "CHR ''}'' \<notin> set body" and "body \<noteq> []"
  shows "\<exists>ms. rmatch object_pattern (bef, CHR ''{'' # body @ CHR ''}'' # post, caps)
           = (rev (CHR ''{'' # body @ [CHR ''}'']) @ bef, post, caps) # ms"
proof -
  let ?rest = "body @ CHR ''}'' # post"
  let ?f = "\<lambda>j. if startswith (drop j ?rest) ''}''
               then [(rev ''}'' @ rev (take j ?rest) @ CHR ''{'' # bef,
                      drop (length ''}'') (drop j ?rest), caps)]
               else []"
  from assms(1) have run: "takeWhile not_close_brace ?rest = body"
    by (simp add: takeWhile_append not_close_brace_def)
  from assms(2) have split: "rev [1 ..< Suc (length body)]
      = rev [Suc (length body) ..< Suc (length body)] @ length body # rev [1 ..< length body]"
    by (intro rev_upt_split) (simp_all add: Suc_le_eq)
  have last: "?f (length body) = [(rev (CHR ''{'' # body @ [CHR ''}'']) @ bef, post, caps)]"
    by simp
  have "rmatch object_pattern (bef, CHR ''{'' # ?rest, caps)
          = rmatch (Cat (Rep not_close_brace 1) (Lit ''}'')) (CHR ''{'' # bef, ?rest, caps)"
    by (simp add: object_pattern_def rmatch.simps)
  also have "\<dots> = concat (map ?f (rev [1 ..< Suc (length body)]))"
    unfolding rmatch_Rep_then_Lit run ..
  also have "\<dots> = (rev (CHR ''{'' # body @ [CHR ''}'']) @ bef, post, caps)
                   # [] @ concat (map ?f (rev [1 ..< length body]))"
    by (rule concat_map_first [where f = ?f, OF split _ last]) simp
  finally show ?thesis by simp
qed

lemma re_search_object_pattern:
  assumes "CHR ''{'' \<notin> set pre" and "CHR ''}'' \<notin> set body" and "body \<noteq> []"
  shows "\<exists>m. re_search object_pattern (pre @ CHR ''{'' # body @ CHR ''}'' # post) = Some m
            \<and> matched_text m = CHR ''{'' # body @ [CHR ''}'']"
proof -
  from assms(1) have "\<forall>c \<in> set pre. \<forall>cs b. rmatch object_pattern (b, c # cs, []) = []"
    by (auto intro: object_pattern_not_here)
  then have "re_search object_pattern (pre @ CHR ''{'' # body @ CHR ''}'' # post)
      = search_from object_pattern (rev pre @ []) (CHR ''{'' # body @ CHR ''}'' # post)"
    unfolding re_search_def by (rule search_from_skip)
  moreover from object_pattern_here [OF assms(2,3)] obtain ms
    where "rmatch object_pattern (rev pre @ [], CHR ''{'' # body @ CHR ''}'' # post, [])
           = (rev (CHR ''{'' # body @ [CHR ''}'']) @ rev pre @ [], post, []) # ms"
    by blast
  ultimately have "re_search object_pattern (pre @ CHR ''{'' # body @ CHR ''}'' # post)
      = Some (rev pre @ [], (rev (CHR ''{'' # body @ [CHR ''}'']) @ rev pre @ [], post, []))"
    by (simp only: search_from_here)
  then show ?thesis
    by (simp add: matched_text_def)
qed

lemma re_search_object_pattern_None:
  "CHR ''{'' \<notin> set s \<Longrightarrow> re_search object_pattern s = None"
proof -
  assume no: "CHR ''{'' \<notin> set s"
  have "rmatch object_pattern (rev xs, ys, []) = []" if "s = xs @ ys" for xs ys
  proof (cases ys)
    case Nil
    then show ?thesis by (simp add: object_pattern_def rmatch.simps)
  next
    case (Cons c cs)
    with no that have "c \<noteq> CHR ''{''" by auto
    with Cons show ?thesis by (simp add: object_pattern_not_here)
  qed
  then show ?thesis
    by (simp add: re_search_None_iff)
qed

text \<open>The two attempts of the parser, on a text with known spans.\<close>

lemma try_array_span:
  assumes "CHR ''['' \<notin> set pre" and "CHR '']'' \<notin> set post"
  shows "try_array (pre @ CHR ''['' # mid @ CHR '']'' # post) =
           (case json_loads (CHR ''['' # mid @ [CHR '']'']) of
              Some (JArr result) \<Rightarrow> Some result
            | _ \<Rightarrow> None)"
proof -
  from re_search_array_pattern [OF assms] obtain m
    where "re_search array_pattern (pre @ CHR ''['' # mid @ CHR '']'' # post) = Some m"
      and "matched_text m = CHR ''['' # mid @ [CHR '']'']"
    by blast
  then show ?thesis
    by (simp add: try_array_def)
qed

lemma try_object_span:
  assumes "CHR ''{'' \<notin> set pre" and "CHR ''}'' \<notin> set body" and "body \<noteq> []"
  shows "try_object (pre @ CHR ''{'' # body @ CHR ''}'' # post) =
           (case json_loads (CHR ''{'' # body @ [CHR ''}'']) of
              Some (JObj result) \<Rightarrow> Some [JObj result]
            | _ \<Rightarrow> None)"
proof -
  from re_search_object_pattern [OF assms] obtain m
    where "re_search object_pattern (pre @ CHR ''{'' # body @ CHR ''}'' # post) = Some m"
      and "matched_text m = CHR ''{'' # body @ [CHR ''}'']"
    by blast
  then show ?thesis
    by (simp add: try_object_def)
qed

lemma strip_prose_array:
  "strip (prose @ CHR ''['' # mid @ [CHR '']'']) = dropWhile is_space prose @ CHR ''['' # mid @ [CHR '']'']"
proof -
  have a: "\<not> is_space CHR ''[''" and b: "\<not> is_space CHR '']''"
    by (simp_all add: is_space_def)
  from a have "dropWhile is_space (prose @ CHR ''['' # mid @ [CHR '']''])
      = dropWhile is_space prose @ CHR ''['' # mid @ [CHR '']'']"
    by (induction prose) simp_all
  with b show ?thesis
    by (simp add: strip_def)
qed

lemma try_array_no_bracket: "CHR ''['' \<notin> set s \<Longrightarrow> try_array s = None"
  by (simp add: try_array_def re_search_array_pattern_None)

lemma try_object_no_brace: "CHR ''{'' \<notin> set s \<Longrightarrow> try_object s = None"
  by (simp add: try_object_def re_search_object_pattern_None)

text \<open>Sample responses, evaluated.\<close>

lemma trailing_array_loads:
  "json_loads trailing_array
     = Some (JArr [JObj [(''amount'', JInt 5000)], JObj [(''amount'', JInt 7000)]])"
  by code_simp

lemma noted_parse: "parse_ai_response noted_response = [JObj [(''amount'', JInt 5000)]]"
  by code_simp

lemma noted_span_loads: "json_loads (''[catatan] '' @ trailing_array) = None"
  by code_simp

lemma noted_strip: "strip noted_response = noted_response"
  by code_simp

lemma first_object_loads:
  \<open>json_loads (''{'' @ ''"amount": 5000'' @ ''}'') = Some (JObj [(''amount'', JInt 5000)])\<close>
  by code_simp

text \<open>
  Claim C7, amended. The parser works on the stripped response. Its array is the span
  from the first \<^verbatim>\<open>[\<close> to the last \<^verbatim>\<open>]\<close> of the text, not the first valid array: when
  this span decodes to a JSON array, the result is its items. When the text has no \<^verbatim>\<open>[\<close>
  or the span does not decode to an array, the object is the span from the first \<^verbatim>\<open>{\<close>
  to the next \<^verbatim>\<open>}\<close> (with at least one character in between): the result is this
  object alone when the span decodes to one, and empty otherwise. Prose that holds no
  \<^verbatim>\<open>[\<close>, followed by a JSON array that ends the response, gives the items of the array.
  A response without \<^verbatim>\<open>[\<close> and \<^verbatim>\<open>{\<close> gives the empty list.
\<close>

theorem parse_ai_response_spans:
  "(CHR ''['' \<notin> set pre \<and> CHR '']'' \<notin> set post
      \<and> strip response = pre @ ''['' @ mid @ '']'' @ post
      \<and> json_loads (''['' @ mid @ '']'') = Some (JArr xs)
     \<longrightarrow> parse_ai_response response = xs)
   \<and> ((CHR ''['' \<notin> set (strip response)
        \<or> (CHR ''['' \<notin> set pre \<and> CHR '']'' \<notin> set post
            \<and> strip response = pre @ ''['' @ mid @ '']'' @ post
            \<and> (\<forall>ys. json_loads (''['' @ mid @ '']'') \<noteq> Some (JArr ys))))
      \<and> CHR ''{'' \<notin> set pre' \<and> CHR ''}'' \<notin> set body \<and> body \<noteq> []
      \<and> strip response = pre' @ ''{'' @ body @ ''}'' @ post'
     \<longrightarrow> parse_ai_response response =
           (case json_loads (''{'' @ body @ ''}'') of
              Some (JObj kvs) \<Rightarrow> [JObj kvs]
            | _ \<Rightarrow> []))
   \<and> (CHR ''['' \<notin> set prose \<and> json_loads (''['' @ mid @ '']'') = Some (JArr xs)
     \<longrightarrow> parse_ai_response (prose @ ''['' @ mid @ '']'') = xs)
   \<and> (CHR ''['' \<notin> set (strip response) \<and> CHR ''{'' \<notin> set (strip response)
     \<longrightarrow> parse_ai_response response = [])"
proof (intro conjI impI)
  assume "CHR ''['' \<notin> set pre \<and> CHR '']'' \<notin> set post
      \<and> strip response = pre @ ''['' @ mid @ '']'' @ post
      \<and> json_loads (''['' @ mid @ '']'') = Some (JArr xs)"
  then have "try_array (strip response) = Some xs"
    by (simp add: try_array_span)
  then show "parse_ai_response response = xs"
    by (simp add: parse_ai_response_def)
next
  assume a: "(CHR ''['' \<notin> set (strip response)
        \<or> (CHR ''['' \<notin> set pre \<and> CHR '']'' \<notin> set post
            \<and> strip response = pre @ ''['' @ mid @ '']'' @ post
            \<and> (\<forall>ys. json_loads (''['' @ mid @ '']'') \<noteq> Some (JArr ys))))
      \<and> CHR ''{'' \<notin> set pre' \<and> CHR ''}'' \<notin> set body \<and> body \<noteq> []
      \<and> strip response = pre' @ ''{'' @ body @ ''}'' @ post'"
  have "try_array (strip response) = None"
  proof -
    from a consider "CHR ''['' \<notin> set (strip response)"
      | "CHR ''['' \<notin> set pre \<and> CHR '']'' \<notin> set post
            \<and> strip response = pre @ ''['' @ mid @ '']'' @ post
            \<and> (\<forall>ys. json_loads (''['' @ mid @ '']'') \<noteq> Some (JArr ys))"
      by blast
    then show ?thesis
    proof cases
      case 1
      then show ?thesis by (rule try_array_no_bracket)
    next
      case 2
      then show ?thesis
        by (auto simp: try_array_span split: option.splits json.splits)
    qed
  qed
  moreover from a have "try_object (strip response) =
      (case json_loads (''{'' @ body @ ''}'') of
         Some (JObj result) \<Rightarrow> Some [JObj result]
       | _ \<Rightarrow> None)"
    by (simp add: try_object_span)
  ultimately show "parse_ai_response response =
           (case json_loads (''{'' @ body @ ''}'') of
              Some (JObj kvs) \<Rightarrow> [JObj kvs]
            | _ \<Rightarrow> [])"
    by (simp add: parse_ai_response_def split: option.splits json.splits)
next
  assume a: "CHR ''['' \<notin> set prose \<and> json_loads (''['' @ mid @ '']'') = Some (JArr xs)"
  have "strip (prose @ ''['' @ mid @ '']'') = dropWhile is_space prose @ CHR ''['' # mid @ CHR '']'' # []"
    using strip_prose_array [of prose mid] by simp
  moreover from a have "CHR ''['' \<notin> set (dropWhile is_space prose)"
    by (blast dest: set_dropWhileD)
  ultimately have "try_array (strip (prose @ ''['' @ mid @ '']'')) =
      (case json_loads (CHR ''['' # mid @ [CHR '']'']) of
         Some (JArr result) \<Rightarrow> Some result
       | _ \<Rightarrow> None)"
    by (simp only: try_array_span [where post = "[]"] set_simps empty_iff not_False_eq_True)
  with a show "parse_ai_response (prose @ ''['' @ mid @ '']'') = xs"
    by (simp add: parse_ai_response_def)
next
  assume "CHR ''['' \<notin> set (strip response) \<and> CHR ''{'' \<notin> set (strip response)"
  then show "parse_ai_response response = []"
    by (simp add: parse_ai_response_def try_array_no_bracket try_object_no_brace)
qed

theorem parse_ai_response_spans_witness:
  \<open>parse_ai_response prose_then_array
     = [JObj [(''amount'', JInt 5000)], JObj [(''amount'', JInt 7000)]]
   \<and> parse_ai_response noted_response = [JObj [(''amount'', JInt 5000)]]\<close>
proof -
  have array: \<open>trailing_array = ''['' @ ''{"amount": 5000}, {"amount": 7000}'' @ '']''\<close>
    by (simp add: trailing_array_def)
  have loads: \<open>json_loads (''['' @ ''{"amount": 5000}, {"amount": 7000}'' @ '']'')
      = Some (JArr [JObj [(''amount'', JInt 5000)], JObj [(''amount'', JInt 7000)]])\<close>
    using trailing_array_loads unfolding array .
  have prose: "CHR ''['' \<notin> set ''Berikut hasilnya: ''"
    by simp
  note trailing = parse_ai_response_spans [where prose = "''Berikut hasilnya: ''"
      and mid = \<open>''{"amount": 5000}, {"amount": 7000}''\<close>
      and xs = "[JObj [(''amount'', JInt 5000)], JObj [(''amount'', JInt 7000)]]"]
  from prose loads
  have \<open>parse_ai_response
          (''Berikut hasilnya: '' @ ''['' @ ''{"amount": 5000}, {"amount": 7000}'' @ '']'')
      = [JObj [(''amount'', JInt 5000)], JObj [(''amount'', JInt 7000)]]\<close>
    by (intro mp [OF conjunct1 [OF conjunct2 [OF conjunct2 [OF trailing]]]] conjI)
  then have first: "parse_ai_response prose_then_array
      = [JObj [(''amount'', JInt 5000)], JObj [(''amount'', JInt 7000)]]"
    unfolding prose_then_array_def array .
  have span: \<open>strip noted_response
      = ''lihat '' @ ''['' @ ''catatan] [{"amount": 5000}, {"amount": 7000}'' @ '']'' @ []\<close>
    unfolding noted_strip by (simp add: noted_response_def trailing_array_def)
  have object: \<open>strip noted_response
      = ''lihat [catatan] ['' @ ''{'' @ ''"amount": 5000'' @ ''}'' @ '', {"amount": 7000}]''\<close>
    unfolding noted_strip by (simp add: noted_response_def trailing_array_def)
  have undecoded: \<open>\<forall>ys. json_loads
      (''['' @ ''catatan] [{"amount": 5000}, {"amount": 7000}'' @ '']'') \<noteq> Some (JArr ys)\<close>
    using noted_span_loads by (simp add: trailing_array_def)
  have outside: \<open>CHR ''['' \<notin> set ''lihat ''\<close> \<open>CHR '']'' \<notin> set []\<close>
    \<open>CHR ''{'' \<notin> set ''lihat [catatan] [''\<close> \<open>CHR ''}'' \<notin> set ''"amount": 5000''\<close>
    \<open>''"amount": 5000'' \<noteq> []\<close>
    by simp_all
  note noted = parse_ai_response_spans [where response = noted_response
      and pre = "''lihat ''" and post = "[]"
      and mid = \<open>''catatan] [{"amount": 5000}, {"amount": 7000}''\<close>
      and pre' = "''lihat [catatan] [''" and body = \<open>''"amount": 5000''\<close>
      and post' = \<open>'', {"amount": 7000}]''\<close>]
  from outside span object undecoded
  have \<open>parse_ai_response noted_response =
      (case json_loads (''{'' @ ''"amount": 5000'' @ ''}'') of
         Some (JObj kvs) \<Rightarrow> [JObj kvs]
       | _ \<Rightarrow> [])\<close>
    by (intro mp [OF conjunct1 [OF conjunct2 [OF noted]]] conjI disjI2)
  then have second: "parse_ai_response noted_response = [JObj [(''amount'', JInt 5000)]]"
    unfolding first_object_loads by simp
  from first second show ?thesis
    by (intro conjI)
qed

text \<open>
  Prose with a bracket of its own, followed by a valid JSON array of two items: the span
  from the first \<^verbatim>\<open>[\<close> to the last \<^verbatim>\<open>]\<close> does not decode, and the parser returns the first
  object alone.
\<close>

theorem bracket_in_prose_loses_array:
  "parse_ai_response (''lihat [catatan] '' @ trailing_array) = [JObj [(''amount'', JInt 5000)]]
   \<and> json_loads trailing_array
       = Some (JArr [JObj [(''amount'', JInt 5000)], JObj [(''amount'', JInt 7000)]])"
  using noted_parse trailing_array_loads by (simp add: noted_response_def)
section \<open>The receipt text parser\<close>

text \<open>Sample receipts, evaluated.\<close>

lemma toko_parse:
  "parse_receipt_response toko_receipt =
     \<lparr>store_name = ''Toko A'', total_amount = 15000, date = None,
      items = [\<lparr>name = ''Kopi'', quantity = 1, price = 15000\<rparr>],
      raw_text = Some toko_receipt\<rparr>"
  by code_simp

lemma worded_parse:
  "parse_receipt_response worded_receipt =
     \<lparr>store_name = ''Toko A'', total_amount = 15000, date = None,
      items = [\<lparr>name = ''Teh'', quantity = 1, price = 5000\<rparr>],
      raw_text = Some worded_receipt\<rparr>"
  by code_simp

lemma overflow_parse: "parse_receipt_response overflow_receipt = raw_only overflow_receipt"
  by code_simp

lemma infinite_quantity: "py_int (JFloat PosInf) = Inl OverflowError"
  by (simp add: py_int_def int_of_float_def)

text \<open>
  Claim C9. The example of the specification parses to a total of 15000 and one line item
  with the quantity 1, and an item whose quantity is a word is skipped while the rest of
  the receipt is kept. But the handler of the item loop catches \<^verbatim>\<open>ValueError\<close> and
  \<^verbatim>\<open>TypeError\<close> only: a quantity that decodes to an infinite float, such as \<^verbatim>\<open>Infinity\<close>,
  makes \<^verbatim>\<open>int\<close> raise \<^verbatim>\<open>OverflowError\<close>, which leaves the loop and is caught by the outer
  handler. The whole receipt is then lost: the result holds the raw text only, with the
  store \<^verbatim>\<open>Unknown Store\<close>, the total 0 and no item, although the object carried a store,
  a total and a valid item.
\<close>

theorem overflowing_quantity_loses_receipt:
  "parse_receipt_response overflow_receipt =
     \<lparr>store_name = ''Unknown Store'', total_amount = 0, date = None, items = [],
      raw_text = Some overflow_receipt\<rparr>
   \<and> py_int (JFloat PosInf) = Inl OverflowError
   \<and> \<not> item_handler_catches OverflowError
   \<and> total_amount (parse_receipt_response toko_receipt) = 15000
   \<and> items (parse_receipt_response toko_receipt) = [\<lparr>name = ''Kopi'', quantity = 1, price = 15000\<rparr>]
   \<and> items (parse_receipt_response worded_receipt) = [\<lparr>name = ''Teh'', quantity = 1, price = 5000\<rparr>]
   \<and> total_amount (parse_receipt_response worded_receipt) = 15000"
  using overflow_parse infinite_quantity toko_parse worded_parse
  by (simp add: raw_only_def item_handler_catches_def)
end
